theory Spec2Isabelle
  imports Complex_Main "HOL-Library.Char_ord" "HOL-Library.List_Lexorder" "HOL-Library.Multiset"
    "HOL-Library.Sublist"
begin

section \<open>Paths and exceptions\<close>

text \<open>
  Python strings are modelled as \<open>string\<close> (a list of bytes); the order on strings used by
  \<open>sorted\<close> is the lexicographic order on bytes, which for UTF-8 coincides with Python's
  order on code points.  A float is modelled by the rational it denotes, and every
  operation on floats rounds its exact result to a double (section on floating-point
  numbers).
\<close>

type_synonym path = string

text \<open>The exception classes raised in the sources, each with its message (\<open>str(e)\<close>).\<close>

datatype error =
    ValueError string
  | RuntimeError string
  | FileNotFoundError string
  | TimeoutError string
  | ZeroDivisionError string
  | FfmpegError string
  | KeyError string
  | OtherError string

fun str :: "error \<Rightarrow> string" where
  "str (ValueError m) = m"
| "str (RuntimeError m) = m"
| "str (FileNotFoundError m) = m"
| "str (TimeoutError m) = m"
| "str (ZeroDivisionError m) = m"
| "str (FfmpegError m) = m"
| "str (KeyError m) = m"
| "str (OtherError m) = m"

text \<open>\<open>os.path.join\<close> (posixpath) for two components, folded for more.\<close>

definition path_join :: "path \<Rightarrow> path \<Rightarrow> path" where
  "path_join a b =
     (if b \<noteq> [] \<and> hd b = CHR ''/'' then b
      else if a = [] \<or> last a = CHR ''/'' then a @ b
      else a @ ''/'' @ b)"

definition basename :: "path \<Rightarrow> string" where
  "basename p = rev (takeWhile (\<lambda>c. c \<noteq> CHR ''/'') (rev p))"

text \<open>A single quote, which a string literal cannot hold.\<close>

definition q :: string where
  "q = [CHR 0x27]"

text \<open>
  The extension \<open>os.path.splitext(p)[-1]\<close>: the part of the last path component from its
  last dot on, empty when there is no dot or only dots before it.
\<close>

definition splitext_ext :: "path \<Rightarrow> string" where
  "splitext_ext p =
     (let name = basename p in
      if CHR ''.'' \<notin> set name then []
      else
        let ext = CHR ''.'' # rev (takeWhile (\<lambda>c. c \<noteq> CHR ''.'') (rev name));
            stem = rev (tl (dropWhile (\<lambda>c. c \<noteq> CHR ''.'') (rev name)))
        in if list_all (\<lambda>c. c = CHR ''.'') stem then [] else ext)"

text \<open>\<open>str.lower\<close> on ASCII letters (other bytes are left alone).\<close>

definition lower_char :: "char \<Rightarrow> char" where
  "lower_char c =
     (if 65 \<le> (of_char c :: nat) \<and> (of_char c :: nat) \<le> 90 then char_of (of_char c + 32 :: nat) else c)"

definition lower :: "string \<Rightarrow> string" where
  "lower s = map lower_char s"

subsection \<open>Constants (main.py)\<close>

definition ALLOWED_VIDEO_EXTENSIONS :: "string set" where
  "ALLOWED_VIDEO_EXTENSIONS = {''.mp4'', ''.mov'', ''.avi'', ''.mkv'', ''.webm''}"

definition ALLOWED_IMAGE_EXTENSIONS :: "string set" where
  "ALLOWED_IMAGE_EXTENSIONS = {''.jpg'', ''.jpeg'', ''.png'', ''.bmp'', ''.webp''}"

definition MAX_VIDEO_SIZE_MB :: nat where
  "MAX_VIDEO_SIZE_MB = 100 * 1024 * 1024"

definition MAX_IMAGE_SIZE_MB :: nat where
  "MAX_IMAGE_SIZE_MB = 10"

definition MAX_VIDEO_DURATION :: rat where
  "MAX_VIDEO_DURATION = 5 * 60"

definition BASE_DIR :: path where
  "BASE_DIR = ''/tmp/data''"

section \<open>Floating-point numbers\<close>

text \<open>
  Python's floats are IEEE-754 doubles.  \<open>fl x\<close> is the double nearest to the rational
  \<open>x\<close>, ties going to the even mantissa; it is what an addition, subtraction,
  multiplication or division of doubles returns for the exact result \<open>x\<close>, and what a
  decimal literal denotes.  Infinities and NaN are left out: the magnitudes here stay far
  below \<open>2 ^ 1024\<close>.
\<close>

definition pow2 :: "int \<Rightarrow> rat" where
  "pow2 k = (if k \<ge> 0 then 2 ^ nat k else 1 / 2 ^ nat (- k))"

text \<open>The number of binary digits of a natural number.\<close>

function bit_length :: "nat \<Rightarrow> nat" where
  "bit_length n = (if n = 0 then 0 else Suc (bit_length (n div 2)))"
  by pat_completeness auto
termination
  by (relation "measure id") auto

declare bit_length.simps [simp del]

text \<open>The binary exponent of a positive rational: \<open>2 ^ ilog2 x \<le> x < 2 ^ (ilog2 x + 1)\<close>.\<close>

definition ilog2 :: "rat \<Rightarrow> int" where
  "ilog2 x =
     (if x \<ge> 1 then int (bit_length (nat \<lfloor>x\<rfloor>)) - 1
      else - int (bit_length (nat (\<lceil>1 / x\<rceil> - 1))))"

definition round_half_even :: "rat \<Rightarrow> int" where
  "round_half_even x =
     (let f = \<lfloor>x\<rfloor>; d = x - of_int f in
      if d < 1 / 2 then f else if d > 1 / 2 then f + 1 else if even f then f else f + 1)"

text \<open>53 bits of mantissa; below \<open>2 ^ (- 1022)\<close> the spacing of the subnormal numbers.\<close>

definition fl :: "rat \<Rightarrow> rat" where
  "fl x =
     (if x = 0 then 0
      else
        let e = max (ilog2 \<bar>x\<bar>) (- 1022);
            ulp = pow2 (e - 52)
        in of_int (round_half_even (x / ulp)) * ulp)"

text \<open>
  \<open>int(x)\<close> truncates towards zero.  \<open>round(x, n)\<close> on a float rounds its exact value to
  \<open>n\<close> decimals, half to even, and returns the double nearest to that decimal.
\<close>

definition py_int :: "rat \<Rightarrow> int" where
  "py_int x = (if x \<ge> 0 then \<lfloor>x\<rfloor> else \<lceil>x\<rceil>)"

definition py_round :: "rat \<Rightarrow> nat \<Rightarrow> rat" where
  "py_round x n = fl (of_int (round_half_even (x * 10 ^ n)) / 10 ^ n)"

section \<open>The disk and the outside world\<close>

text \<open>
  A file of a staging directory as \<open>add_frames\<close> meets it: its name, the digest
  \<open>file_md5\<close> returns (\<open>None\<close> when reading it raises) and whether \<open>shutil.move\<close>
  succeeds on it (\<open>False\<close> when it raises).
\<close>

record staged_file =
  fname :: string
  md5 :: "string option"
  movable :: bool

text \<open>
  The content of \<open>done.json\<close> (the fields \<open>time_elapsed\<close> and \<open>timestamp\<close>, read from
  the wall clock, are left out).
\<close>

record done_data =
  total_frames :: nat
  done_output_dir :: path
  done_final_dir :: path

text \<open>
  The part of the machine the program changes: the directories that exist, the
  \<open>done.json\<close> files written (by path), and the time slept so far, in milliseconds.
\<close>

record state =
  dirs :: "path list"
  done_files :: "(path \<times> done_data) list"
  clock :: nat

text \<open>A video as \<open>cv2.VideoCapture\<close> shows it; a decoded frame is kept as its grey image.\<close>

type_synonym gray = "nat list"

record capture =
  isOpened :: bool
  CAP_PROP_FPS :: rat
  CAP_PROP_FRAME_COUNT :: rat
  CAP_PROP_FRAME_WIDTH :: rat
  CAP_PROP_FRAME_HEIGHT :: rat
  cap_frames :: "gray list"

text \<open>
  What the program reads from outside itself.  \<open>fetch url\<close> is the number of bytes the
  server sends (\<open>None\<close>: the request or writing the file raises); \<open>ffmpeg_scene\<close> and
  \<open>ffmpeg_fps\<close> give the exception of a failing ffmpeg run; \<open>listdir\<close> is the content of a
  staging directory once the samplers are through; \<open>path_exists t p\<close> is
  \<open>os.path.exists(p)\<close> at time \<open>t\<close>; \<open>image_open\<close> gives the message of the exception of
  \<open>Image.open(p).convert("RGB")\<close>, if any; \<open>model_probs\<close> is the classifier on a batch,
  one label-probability dictionary per image or the message of its exception; \<open>imread\<close>
  gives \<open>(height, width)\<close> of an image or \<open>None\<close>; \<open>rmtree_ok\<close> tells whether removing a
  tree succeeds; \<open>float_sum\<close> is the builtin \<open>sum\<close> on a list of floats, whose rounding is
  the interpreter's (additions from left to right before CPython 3.12, compensated
  summation since).
\<close>

record env =
  urlparse_path :: "string \<Rightarrow> string"
  uuid4 :: "string \<Rightarrow> string"
  fetch :: "string \<Rightarrow> nat option"
  VideoCapture :: "path \<Rightarrow> capture"
  ffmpeg_scene :: "path \<Rightarrow> error option"
  ffmpeg_fps :: "path \<Rightarrow> error option"
  listdir :: "path \<Rightarrow> staged_file list"
  path_exists :: "nat \<Rightarrow> path \<Rightarrow> bool"
  getsize :: "path \<Rightarrow> nat"
  image_open :: "path \<Rightarrow> string option"
  model_probs :: "path list \<Rightarrow> string + (string \<times> rat) list list"
  imread :: "path \<Rightarrow> (nat \<times> nat) option"
  relpath :: "path \<Rightarrow> path \<Rightarrow> path"
  rmtree_ok :: "path \<Rightarrow> bool"
  float_sum :: "rat list \<Rightarrow> rat"

text \<open>
  \<open>os.makedirs(p, exist_ok=True)\<close> creates \<open>p\<close> and every directory above it:
  \<open>dir_chain pre rest\<close> lists the prefixes of \<open>pre @ rest\<close> that end before a separator
  of \<open>rest\<close>, and the whole path.
\<close>

fun dir_chain :: "string \<Rightarrow> string \<Rightarrow> path list" where
  "dir_chain pre [] = (if pre = [] then [] else [pre])"
| "dir_chain pre (c # cs) =
     (if c = CHR ''/'' \<and> pre \<noteq> [] then pre # dir_chain (pre @ [c]) cs
      else dir_chain (pre @ [c]) cs)"

definition makedirs :: "path \<Rightarrow> state \<Rightarrow> state" where
  "makedirs p st = st\<lparr>dirs := dirs st @ filter (\<lambda>d. d \<notin> set (dirs st)) (dir_chain [] p)\<rparr>"

text \<open>
  \<open>shutil.rmtree(p, ignore_errors=True)\<close>: the directory and all below it go; when the
  removal fails nothing is raised and (here) nothing is removed.
\<close>

definition below :: "path \<Rightarrow> path \<Rightarrow> bool" where
  "below p d = (d = p \<or> prefix (p @ ''/'') d)"

definition rmtree :: "env \<Rightarrow> path \<Rightarrow> state \<Rightarrow> state" where
  "rmtree e p st =
     (if rmtree_ok e p then st\<lparr>dirs := filter (\<lambda>d. \<not> below p d) (dirs st)\<rparr> else st)"

section \<open>Helpers (utils/helpers.py)\<close>

text \<open>
  \<open>download_file\<close>: every exception ends in \<open>return None\<close>.  The chunks add up to the
  size of the body, so the size check fails exactly when the body is larger than
  \<open>max_bytes\<close>.
\<close>

definition download_file :: "env \<Rightarrow> string \<Rightarrow> path \<Rightarrow> string option \<Rightarrow> nat \<Rightarrow> path option" where
  "download_file e url dest_folder filename max_bytes =
     (if \<not> (prefix ''http://'' url \<or> prefix ''https://'' url) then None
      else
        let ext0 = lower (splitext_ext (urlparse_path e url));
            ext = (if ext0 \<notin> ALLOWED_VIDEO_EXTENSIONS \<union> ALLOWED_IMAGE_EXTENSIONS then ''.bin'' else ext0);
            local_filename =
              (case filename of
                 None \<Rightarrow> uuid4 e url @ ext
               | Some f \<Rightarrow> if f = [] then uuid4 e url @ ext else f @ ext);
            path = path_join dest_folder local_filename
        in case fetch e url of
             None \<Rightarrow> None
           | Some total_downloaded \<Rightarrow> if total_downloaded > max_bytes then None else Some path)"

text \<open>
  A request whose \<open>type\<close> is a string and whose \<open>jobs\<close> is a list of jobs with both keys;
  the checks of \<open>validate_input\<close> on the shape of the dictionaries hold by typing.
\<close>

record job =
  job_id :: string
  url :: string

record request =
  media_type :: string
  jobs :: "job list"

definition validate_input :: "request \<Rightarrow> error + unit" where
  "validate_input req =
     (if media_type req \<notin> {''videos'', ''images''}
      then Inl (ValueError (''Invalid type: must be '' @ q @ ''videos'' @ q @ '' or '' @ q @ ''images'' @ q))
      else if \<not> (1 \<le> length (jobs req) \<and> length (jobs req) \<le> 40)
      then Inl (ValueError (q @ ''jobs'' @ q @ '' must be a list of 1 to 40 jobs''))
      else if media_type req = ''videos'' \<and> length (jobs req) > 10
      then Inl (ValueError ''Too many video jobs: max 10 allowed'')
      else if media_type req = ''images'' \<and> length (jobs req) > 40
      then Inl (ValueError ''Too many image jobs: max 40 allowed'')
      else Inr ())"

text \<open>
  \<open>wait_for_done\<close>: polls once a second for the marker and gives up after the timeout of
  60 seconds; nobody writes the marker while it waits.
\<close>

function wait_for_done_loop :: "path \<Rightarrow> nat \<Rightarrow> state \<Rightarrow> (error + done_data) \<times> state" where
  "wait_for_done_loop done_path start st =
     (case map_of (done_files st) done_path of
        Some meta \<Rightarrow> (Inr meta, st)
      | None \<Rightarrow>
          if clock st - start > 60000
          then (Inl (TimeoutError (''Timed out waiting for '' @ done_path)), st)
          else wait_for_done_loop done_path start (st\<lparr>clock := clock st + 1000\<rparr>))"
  by pat_completeness auto
termination
  by (relation "measure (\<lambda>(p, start, st). 61001 + start - clock st)") auto

declare wait_for_done_loop.simps [simp del]

definition wait_for_done :: "path \<Rightarrow> state \<Rightarrow> (error + done_data) \<times> state" where
  "wait_for_done done_path st = wait_for_done_loop done_path (clock st) st"

section \<open>Deduplication of staged frames (utils/video\_utils.py)\<close>

text \<open>The destination \<open>os.path.join(final_dir, f"{h}.jpg")\<close> of a claimed frame.\<close>

definition dest :: "path \<Rightarrow> string \<Rightarrow> path" where
  "dest final_dir h = path_join final_dir (h @ ''.jpg'')"

text \<open>
  The body of the \<open>for fname in sorted(os.listdir(folder))\<close> loop of \<open>add_frames\<close>;
  the state is \<open>(seen, frame_paths)\<close>, \<open>cnt\<close> is the loop's counter \<open>count\<close>.  An exception
  inside the \<open>try\<close> is logged and the loop goes on with \<open>count\<close> unchanged; an exception
  of \<open>shutil.move\<close> comes after \<open>seen.add(h)\<close>.
\<close>

fun add_frames_loop ::
  "path \<Rightarrow> nat \<Rightarrow> staged_file list \<Rightarrow> nat \<Rightarrow> string set \<times> path list \<Rightarrow> string set \<times> path list"
where
  "add_frames_loop final_dir cap [] cnt (seen, frame_paths) = (seen, frame_paths)"
| "add_frames_loop final_dir cap (f # fs) cnt (seen, frame_paths) =
     (if cap \<noteq> 0 \<and> cnt \<ge> cap then (seen, frame_paths)
      else case md5 f of
        None \<Rightarrow> add_frames_loop final_dir cap fs cnt (seen, frame_paths)
      | Some h \<Rightarrow>
          if h \<notin> seen then
            (if movable f
             then add_frames_loop final_dir cap fs (cnt + 1)
                    (insert h seen, frame_paths @ [dest final_dir h])
             else add_frames_loop final_dir cap fs cnt (insert h seen, frame_paths))
          else add_frames_loop final_dir cap fs (cnt + 1) (seen, frame_paths))"

text \<open>\<open>add_frames(folder, cap=250)\<close>: the listing of the folder is sorted by file name.\<close>

definition add_frames ::
  "path \<Rightarrow> staged_file list \<Rightarrow> nat \<Rightarrow> string set \<times> path list \<Rightarrow> string set \<times> path list"
where
  "add_frames final_dir listing cap st = add_frames_loop final_dir cap (sort_key fname listing) 0 st"

definition default_cap :: nat where
  "default_cap = 250"

text \<open>
  The three calls \<open>add_frames(scene_dir); add_frames(fps_dir, cap=max_fps_frames);
  add_frames(spike_dir)\<close> on \<open>seen = set()\<close>, \<open>frame_paths = []\<close>.
\<close>

definition deduplicate ::
  "path \<Rightarrow> staged_file list \<Rightarrow> staged_file list \<Rightarrow> staged_file list \<Rightarrow> nat \<Rightarrow> path list"
where
  "deduplicate final_dir scene fps spike max_fps_frames =
     snd (add_frames final_dir spike default_cap
           (add_frames final_dir fps max_fps_frames
             (add_frames final_dir scene default_cap ({}, []))))"

subsection \<open>What the deduplication is compared with\<close>

text \<open>
  A cap of \<open>0\<close> is falsy in \<open>if cap and count >= cap\<close>, so it switches the cap off.
  \<open>visited cap listing\<close> is the sorted listing cut at the cap; \<open>first_wins\<close> keeps
  the first occurrence of every element of a list and drops the later ones.
\<close>

definition capped :: "nat \<Rightarrow> 'a list \<Rightarrow> 'a list" where
  "capped cap xs = (if cap = 0 then xs else take cap xs)"

definition visited :: "nat \<Rightarrow> staged_file list \<Rightarrow> staged_file list" where
  "visited cap listing = capped cap (sort_key fname listing)"

fun first_wins :: "'a list \<Rightarrow> 'a list" where
  "first_wins [] = []"
| "first_wins (h # hs) = h # removeAll h (first_wins hs)"

definition intact :: "staged_file list \<Rightarrow> bool" where
  "intact fs = (\<forall>f \<in> set fs. md5 f \<noteq> None \<and> movable f)"


definition candidate_hashes ::
  "staged_file list \<Rightarrow> staged_file list \<Rightarrow> staged_file list \<Rightarrow> nat \<Rightarrow> string list" where
  "candidate_hashes scene fps spike max_fps_frames =
     List.map_filter md5
       (visited default_cap scene @ visited max_fps_frames fps @ visited default_cap spike)"


subsection \<open>Example staging directories\<close>

text \<open>
  \<open>frame_name i\<close> is the file name that the pattern \<open>frame_%03d.jpg\<close> gives for
  \<open>i < 1000\<close>.  \<open>ex_scene_251\<close> is a scene directory of 251 frames whose first 250
  files have the same content and whose last file differs.
\<close>

definition ex_final_dir :: path where
  "ex_final_dir = ''/tmp/data/r1/videos/j1/final''"

definition ex_scene :: "staged_file list" where
  "ex_scene = [\<lparr>fname = ''frame_002.jpg'', md5 = Some ''9e107d9d372bb6826bd81d3542a419d6'', movable = True\<rparr>,
               \<lparr>fname = ''frame_001.jpg'', md5 = Some ''e4d909c290d0fb1ca068ffaddf22cbd0'', movable = True\<rparr>]"

definition ex_fps :: "staged_file list" where
  "ex_fps = [\<lparr>fname = ''frame_001.jpg'', md5 = Some ''e4d909c290d0fb1ca068ffaddf22cbd0'', movable = True\<rparr>,
             \<lparr>fname = ''frame_002.jpg'', md5 = Some ''d41d8cd98f00b204e9800998ecf8427e'', movable = True\<rparr>]"

definition ex_spike :: "staged_file list" where
  "ex_spike = [\<lparr>fname = ''frame_000.jpg'', md5 = Some ''d41d8cd98f00b204e9800998ecf8427e'', movable = True\<rparr>,
               \<lparr>fname = ''frame_001.jpg'', md5 = Some ''0cc175b9c0f1b6a831c399e269772661'', movable = True\<rparr>]"

definition digit :: "nat \<Rightarrow> char" where "digit d = char_of (48 + d)"

definition frame_name :: "nat \<Rightarrow> string" where
  "frame_name i = ''frame_'' @ [digit (i div 100), digit (i div 10 mod 10), digit (i mod 10)] @ ''.jpg''"

definition ex_scene_251 :: "staged_file list" where
  "ex_scene_251 =
     map (\<lambda>i. \<lparr>fname = frame_name i,
               md5 = Some (if i \<le> 250 then ''e4d909c290d0fb1ca068ffaddf22cbd0''
                           else ''9e107d9d372bb6826bd81d3542a419d6''),
               movable = True\<rparr>) [1..<252]"

section \<open>Spike detection and frame extraction (utils/video\_utils.py)\<close>

text \<open>
  \<open>cv2.absdiff(gray, prev_gray).mean()\<close> on two grey images of one shape: the sum of
  the differences is an integer, its quotient by the number of pixels is rounded to a
  double.  (On an image without pixels the mean is NaN, which no comparison accepts; here
  it is 0, which the threshold rejects as well.)
\<close>

definition absdiff_mean :: "gray \<Rightarrow> gray \<Rightarrow> rat" where
  "absdiff_mean a b =
     fl (of_int (sum_list (map (\<lambda>(x, y). \<bar>int x - int y\<bar>) (zip a b))) / of_nat (length a))"

text \<open>
  The \<open>while cap.isOpened()\<close> loop of \<open>detect_luma_spike_timestamps\<close> on an opened
  capture; \<open>rest\<close> are the frames not yet consumed.  \<open>frame_idx % step\<close> raises when
  \<open>step\<close> is 0; \<open>cap.grab()\<close> skips a frame and its result is ignored; \<open>cap.read()\<close> at
  the end of the frames gives \<open>ret = False\<close>.
\<close>

function spike_loop ::
  "rat \<Rightarrow> int \<Rightarrow> rat \<Rightarrow> rat \<Rightarrow> gray list \<Rightarrow> nat \<Rightarrow> gray option \<Rightarrow> rat \<Rightarrow> rat list \<Rightarrow> error + rat list"
where
  "spike_loop fps step diff_thresh suppression_window rest frame_idx prev_gray last_spike_time timestamps =
     (if step = 0 then Inl (ZeroDivisionError ''integer modulo by zero'')
      else if int frame_idx mod step \<noteq> 0
      then spike_loop fps step diff_thresh suppression_window (tl rest) (frame_idx + 1)
             prev_gray last_spike_time timestamps
      else case rest of
          [] \<Rightarrow> Inr timestamps
        | gray # rest' \<Rightarrow>
            (case prev_gray of
               None \<Rightarrow>
                 spike_loop fps step diff_thresh suppression_window rest' (frame_idx + 1)
                   (Some gray) last_spike_time timestamps
             | Some prev \<Rightarrow>
                 let delta = absdiff_mean gray prev;
                     ts = fl (of_nat frame_idx / fps)
                 in if delta > diff_thresh \<and> fl (ts - last_spike_time) \<ge> suppression_window
                    then spike_loop fps step diff_thresh suppression_window rest' (frame_idx + 1)
                           (Some gray) ts (timestamps @ [py_round ts 2])
                    else spike_loop fps step diff_thresh suppression_window rest' (frame_idx + 1)
                           (Some gray) last_spike_time timestamps))"
  by pat_completeness auto
termination
proof (relation "measures [\<lambda>(fps, step, d, w, rest, frame_idx, r). length rest,
                           \<lambda>(fps, step, d, w, rest, frame_idx, r). nat ((- int frame_idx) mod \<bar>step\<bar>)]",
       goal_cases)
  case 1
  show ?case by simp
next
  case (2 fps step d w rest i prev_gray last_spike_time timestamps)
  have pos: "\<bar>step\<bar> > 0" using 2 by simp
  have a: "int i mod \<bar>step\<bar> \<noteq> 0"
    using 2(2) by (simp add: mod_eq_0_iff_dvd)
  have lt: "int i mod \<bar>step\<bar> < \<bar>step\<bar>" "0 \<le> int i mod \<bar>step\<bar>"
    using pos by simp_all
  have b: "(- int i) mod \<bar>step\<bar> = \<bar>step\<bar> - int i mod \<bar>step\<bar>"
    using a by (simp add: zmod_zminus1_eq_if)
  have "- int (i + 1) = - int i - 1" by simp
  then have "(- int (i + 1)) mod \<bar>step\<bar> = ((- int i) mod \<bar>step\<bar> - 1) mod \<bar>step\<bar>"
    by (simp only: mod_diff_left_eq)
  also have "\<dots> = (\<bar>step\<bar> - int i mod \<bar>step\<bar> - 1) mod \<bar>step\<bar>" using b by simp
  also have "\<dots> = \<bar>step\<bar> - int i mod \<bar>step\<bar> - 1"
    using a lt by (intro mod_pos_pos_trivial) linarith+
  finally have c: "nat ((- int (i + 1)) mod \<bar>step\<bar>) < nat ((- int i) mod \<bar>step\<bar>)"
    using b a lt by linarith
  show ?case
  proof (cases rest)
    case Nil
    then show ?thesis using c by simp
  next
    case (Cons g gs)
    then show ?thesis by simp
  qed
qed simp_all

declare spike_loop.simps [simp del]

text \<open>
  \<open>detect_luma_spike_timestamps\<close> with its default arguments: \<open>diff_thresh = 15\<close>,
  \<open>sample_interval = 0.1\<close> (the double \<open>fl (1 / 10)\<close>), \<open>suppression_window = 1.0\<close>.
\<close>

definition detect_luma_spike_timestamps :: "capture \<Rightarrow> error + rat list" where
  "detect_luma_spike_timestamps cap =
     (let fps = CAP_PROP_FPS cap in
      if fps = 0 then Inr []
      else
        let step = py_int (fl (fps * fl (1 / 10))) in
        if isOpened cap then spike_loop fps step 15 1 (cap_frames cap) 0 None (- 1) []
        else Inr [])"

text \<open>
  The three strategies run side by side, each into its own staging directory;
  \<open>f.result()\<close> is asked of scene, fps and spike in this order, so the first exception in
  this order is the one raised.  A failing \<open>extract_at_ts\<close> is logged only.
\<close>

definition run_strategies :: "env \<Rightarrow> path \<Rightarrow> error option" where
  "run_strategies e video_path =
     (case ffmpeg_scene e video_path of
        Some err \<Rightarrow> Some err
      | None \<Rightarrow>
          (case ffmpeg_fps e video_path of
             Some err \<Rightarrow> Some err
           | None \<Rightarrow>
               (case detect_luma_spike_timestamps (VideoCapture e video_path) of
                  Inl err \<Rightarrow> Some err
                | Inr spike_timestamps \<Rightarrow> None)))"

definition missing_at :: "env \<Rightarrow> nat \<Rightarrow> path list \<Rightarrow> path list" where
  "missing_at e t frame_paths = filter (\<lambda>f. \<not> path_exists e t f) frame_paths"

text \<open>
  \<open>for i in range(10): time.sleep(0.25); missing = ...; if not missing: break\<close>, with the
  number of rounds left and the clock; the result is the last \<open>missing\<close> and the clock.
\<close>

fun flush_wait :: "env \<Rightarrow> path list \<Rightarrow> nat \<Rightarrow> nat \<Rightarrow> path list \<Rightarrow> path list \<times> nat" where
  "flush_wait e frame_paths 0 t missing = (missing, t)"
| "flush_wait e frame_paths (Suc n) t missing =
     (let missing' = missing_at e (t + 250) frame_paths in
      if missing' = [] then (missing', t + 250)
      else flush_wait e frame_paths n (t + 250) missing')"

definition extract_video_frames ::
  "env \<Rightarrow> path \<Rightarrow> path \<Rightarrow> nat \<Rightarrow> state \<Rightarrow> (error + path list) \<times> state"
where
  "extract_video_frames e video_path output_dir max_fps_frames st =
     (let scene_dir = path_join output_dir ''scene'';
          fps_dir = path_join output_dir ''fps'';
          spike_dir = path_join output_dir ''spike'';
          final_dir = path_join output_dir ''final'';
          st1 = makedirs final_dir (makedirs spike_dir (makedirs fps_dir
                  (makedirs scene_dir (makedirs output_dir st))))
      in case run_strategies e video_path of
           Some err \<Rightarrow> (Inl err, st1)
         | None \<Rightarrow>
             let frame_paths = deduplicate final_dir (listdir e scene_dir) (listdir e fps_dir)
                                 (listdir e spike_dir) max_fps_frames;
                 missing0 = missing_at e (clock st1) frame_paths;
                 (missing, t) = (if missing0 \<noteq> []
                                 then flush_wait e frame_paths 10 (clock st1) missing0
                                 else (missing0, clock st1))
             in if missing \<noteq> []
                then (Inl (FileNotFoundError ''Some final frames were not written to disk.''),
                      st1\<lparr>clock := t\<rparr>)
                else (Inr frame_paths,
                      st1\<lparr>clock := t,
                          done_files :=
                            (path_join output_dir ''done.json'',
                             \<lparr>total_frames = length frame_paths, done_output_dir = output_dir,
                              done_final_dir = final_dir\<rparr>) # done_files st1\<rparr>))"

section \<open>Classification (utils/nsfw\_utils.py)\<close>

type_synonym scan_result = "path \<times> bool \<times> rat \<times> (string \<times> rat) list"

text \<open>The tuple appended for one image: the score under the label \<open>nsfw\<close> and its threshold.\<close>

definition score_tuple :: "path \<Rightarrow> (string \<times> rat) list \<Rightarrow> scan_result" where
  "score_tuple path score_dict =
     (let nsfw_score = (case map_of score_dict ''nsfw'' of None \<Rightarrow> 0 | Some s \<Rightarrow> s);
          is_nsfw = (nsfw_score > 1 / 2)
      in (path, is_nsfw, nsfw_score, score_dict))"

text \<open>The first exception of \<open>[Image.open(p).convert("RGB") for p in batch_paths]\<close>.\<close>

fun open_images :: "env \<Rightarrow> path list \<Rightarrow> string option" where
  "open_images e [] = None"
| "open_images e (p # ps) =
     (case image_open e p of Some m \<Rightarrow> Some m | None \<Rightarrow> open_images e ps)"

text \<open>
  The loop over batches of \<open>batch_size = 32\<close> paths.  A model answer with fewer rows than
  the batch has paths makes \<open>probs[j]\<close> raise.
\<close>

function scan_batches :: "env \<Rightarrow> path list \<Rightarrow> error + scan_result list" where
  "scan_batches e image_paths =
     (if image_paths = [] then Inr []
      else
        let batch_paths = take 32 image_paths in
        case open_images e batch_paths of
          Some m \<Rightarrow> Inl (OtherError m)
        | None \<Rightarrow>
            (case model_probs e batch_paths of
               Inl m \<Rightarrow> Inl (OtherError m)
             | Inr probs \<Rightarrow>
                 if length probs < length batch_paths
                 then Inl (OtherError ''index out of range'')
                 else
                   (case scan_batches e (drop 32 image_paths) of
                      Inl err \<Rightarrow> Inl err
                    | Inr results \<Rightarrow>
                        Inr (map (\<lambda>(path, score_dict). score_tuple path score_dict)
                               (zip batch_paths probs) @ results))))"
  by pat_completeness auto
termination
  by (relation "measure (\<lambda>(e, image_paths). length image_paths)") auto

declare scan_batches.simps [simp del]

definition scan_images_for_nsfw :: "env \<Rightarrow> path list \<Rightarrow> error + scan_result list" where
  "scan_images_for_nsfw e image_paths =
     (if image_paths = [] then Inr [] else scan_batches e image_paths)"

section \<open>The pipeline (main.py)\<close>

subsection \<open>Preprocessing\<close>

record video_metadata =
  md_width :: int
  md_height :: int
  md_duration :: rat
  md_fps :: rat
  md_size_mb :: rat
  md_original_filename :: string

text \<open>
  A preprocessed job: \<open>{"job_id", "image_path"}\<close> for an image,
  \<open>{"job_id", "frames_paths", "metadata"}\<close> for a video, where \<open>None\<close> is the empty
  metadata dictionary.
\<close>

datatype preprocessed_job =
    ImageJob string path
  | VideoJob string "path list" "video_metadata option"

text \<open>The body of the loop over image jobs; nothing in it raises.\<close>

fun preprocess_images ::
  "env \<Rightarrow> string \<Rightarrow> job list \<Rightarrow> preprocessed_job list \<Rightarrow> state \<Rightarrow>
   (error + preprocessed_job list) \<times> state"
where
  "preprocess_images e round_id [] preprocessed_jobs st = (Inr preprocessed_jobs, st)"
| "preprocess_images e round_id (job # rest) preprocessed_jobs st =
     (let work_dir = path_join (path_join BASE_DIR round_id) ''images'';
          st1 = makedirs work_dir st
      in case download_file e (url job) work_dir (Some (job_id job)) MAX_IMAGE_SIZE_MB of
           None \<Rightarrow> preprocess_images e round_id rest preprocessed_jobs st1
         | Some path \<Rightarrow>
             if lower (splitext_ext path) \<notin> ALLOWED_IMAGE_EXTENSIONS
             then preprocess_images e round_id rest preprocessed_jobs st1
             else preprocess_images e round_id rest
                    (preprocessed_jobs @ [ImageJob (job_id job) path]) st1)"

text \<open>
  The body of the loop over video jobs, for one job: the descriptor with no frames and
  no metadata is appended right after the download gate; each \<open>continue\<close> leaves it so;
  an exception of the extraction or of the wait for \<open>done.json\<close> leaves the function.
  \<open>extract_video_frames(video_path, work_dir)\<close> runs with \<open>max_fps_frames = 60\<close>.
\<close>

definition preprocess_video_job ::
  "env \<Rightarrow> string \<Rightarrow> job \<Rightarrow> preprocessed_job list \<Rightarrow> state \<Rightarrow>
   (error + preprocessed_job list) \<times> state"
where
  "preprocess_video_job e round_id job preprocessed_jobs st =
     (let work_dir = path_join (path_join (path_join BASE_DIR round_id) ''videos'') (job_id job);
          st1 = makedirs work_dir st
      in case download_file e (url job) work_dir None MAX_VIDEO_SIZE_MB of
           None \<Rightarrow> (Inr preprocessed_jobs, st1)
         | Some video_path \<Rightarrow>
             if lower (splitext_ext video_path) \<notin> ALLOWED_VIDEO_EXTENSIONS
             then (Inr preprocessed_jobs, st1)
             else
               let appended = preprocessed_jobs @ [VideoJob (job_id job) [] None];
                   cap = VideoCapture e video_path
               in if \<not> isOpened cap then (Inr appended, st1)
                  else
                    let fps = CAP_PROP_FPS cap;
                        frame_count = CAP_PROP_FRAME_COUNT cap;
                        w = py_int (CAP_PROP_FRAME_WIDTH cap);
                        h = py_int (CAP_PROP_FRAME_HEIGHT cap)
                    in if fps \<le> 0 \<or> frame_count \<le> 0 then (Inr appended, st1)
                       else
                         let duration = fl (frame_count / fps) in
                         if duration > MAX_VIDEO_DURATION then (Inr appended, st1)
                         else
                           (case extract_video_frames e video_path work_dir 60 st1 of
                              (Inl err, st2) \<Rightarrow> (Inl err, st2)
                            | (Inr frames, st2) \<Rightarrow>
                                (case wait_for_done (path_join work_dir ''done.json'') st2 of
                                   (Inl err, st3) \<Rightarrow> (Inl err, st3)
                                 | (Inr done_metadata, st3) \<Rightarrow>
                                     let video_metadata =
                                           \<lparr>md_width = w, md_height = h,
                                            md_duration = py_round duration 2,
                                            md_fps = py_round fps 2,
                                            md_size_mb =
                                              py_round (fl (of_nat (getsize e video_path) / (1024 * 1024))) 2,
                                            md_original_filename = basename video_path\<rparr>
                                     in (Inr (butlast appended
                                               @ [VideoJob (job_id job) frames (Some video_metadata)]),
                                         st3))))"

fun preprocess_videos ::
  "env \<Rightarrow> string \<Rightarrow> job list \<Rightarrow> preprocessed_job list \<Rightarrow> state \<Rightarrow>
   (error + preprocessed_job list) \<times> state"
where
  "preprocess_videos e round_id [] preprocessed_jobs st = (Inr preprocessed_jobs, st)"
| "preprocess_videos e round_id (job # rest) preprocessed_jobs st =
     (case preprocess_video_job e round_id job preprocessed_jobs st of
        (Inl err, st1) \<Rightarrow> (Inl err, st1)
      | (Inr appended, st1) \<Rightarrow> preprocess_videos e round_id rest appended st1)"

text \<open>\<open>preprocess_media\<close>: the \<open>except\<close> clause prints and raises the exception again.\<close>

definition preprocess_media ::
  "env \<Rightarrow> string \<Rightarrow> job list \<Rightarrow> string \<Rightarrow> state \<Rightarrow> (error + preprocessed_job list) \<times> state"
where
  "preprocess_media e mtype js round_id st =
     (case validate_input \<lparr>media_type = mtype, jobs = js\<rparr> of
        Inl err \<Rightarrow> (Inl err, st)
      | Inr u \<Rightarrow>
          if mtype = ''images'' then preprocess_images e round_id js [] st
          else if mtype = ''videos'' then preprocess_videos e round_id js [] st
          else (Inr [], st))"

subsection \<open>Scanning\<close>

record frame_result =
  filename :: string
  relative_path :: path
  is_nsfw :: bool
  nsfw_score :: rat
  full_probs :: "(string \<times> rat) list"
  width :: "nat option"
  height :: "nat option"
  size_mb :: "rat option"
  error :: "string option"

text \<open>
  The \<open>for attempt in range(5)\<close> loop with its \<open>else\<close>: \<open>None\<close> when an attempt found
  every path (\<open>break\<close>), otherwise the paths missing at the last attempt.
\<close>

fun await_frames ::
  "env \<Rightarrow> path list \<Rightarrow> nat \<Rightarrow> nat \<Rightarrow> path list \<Rightarrow> path list option \<times> nat"
where
  "await_frames e frame_paths 0 t missing = (Some missing, t)"
| "await_frames e frame_paths (Suc n) t missing =
     (let missing' = missing_at e t frame_paths in
      if missing' = [] then (None, t)
      else await_frames e frame_paths n (t + 500) missing')"

text \<open>The \<open>repr\<close> of a list of strings (without escapes).\<close>

fun join_strs :: "string \<Rightarrow> string list \<Rightarrow> string" where
  "join_strs sep [] = []"
| "join_strs sep [x] = x"
| "join_strs sep (x # y # ys) = x @ sep @ join_strs sep (y # ys)"

definition repr_list :: "string list \<Rightarrow> string" where
  "repr_list xs = ''['' @ join_strs '', '' (map (\<lambda>x. q @ x @ q) xs) @ '']''"

text \<open>The loop over \<open>zip(frame_paths, scan_results)\<close> inside the \<open>try\<close>.\<close>

fun reshape :: "env \<Rightarrow> string \<Rightarrow> (path \<times> scan_result) list \<Rightarrow> error + frame_result list" where
  "reshape e mtype [] = Inr []"
| "reshape e mtype ((frame_path, (p, nsfw, score, probs)) # rest) =
     (if mtype = ''images'' then
        (case imread e frame_path of
           None \<Rightarrow> Inl (ValueError (''Could not read image: '' @ frame_path))
         | Some (h, w) \<Rightarrow>
             (case reshape e mtype rest of
                Inl err \<Rightarrow> Inl err
              | Inr results \<Rightarrow>
                  Inr (\<lparr>filename = basename frame_path,
                        relative_path = relpath e frame_path BASE_DIR,
                        is_nsfw = nsfw, nsfw_score = score, full_probs = probs,
                        width = Some w, height = Some h,
                        size_mb = Some (py_round (fl (of_nat (getsize e frame_path) / (1024 * 1024))) 2),
                        error = None\<rparr> # results)))
      else
        (case reshape e mtype rest of
           Inl err \<Rightarrow> Inl err
         | Inr results \<Rightarrow>
             Inr (\<lparr>filename = basename frame_path,
                   relative_path = relpath e frame_path BASE_DIR,
                   is_nsfw = nsfw, nsfw_score = score, full_probs = probs,
                   width = None, height = None, size_mb = None,
                   error = None\<rparr> # results)))"

text \<open>The body of the \<open>try\<close> of \<open>scan_frames\<close>: classification, then reshaping.\<close>

definition scan_stage :: "env \<Rightarrow> string \<Rightarrow> path list \<Rightarrow> error + frame_result list" where
  "scan_stage e mtype frame_paths =
     (case scan_images_for_nsfw e frame_paths of
        Inl err \<Rightarrow> Inl err
      | Inr scan_results \<Rightarrow> reshape e mtype (zip frame_paths scan_results))"

text \<open>The result the \<open>except\<close> clause builds for one path.\<close>

definition degraded :: "env \<Rightarrow> error \<Rightarrow> path \<Rightarrow> frame_result" where
  "degraded e err p =
     \<lparr>filename = basename p, relative_path = relpath e p ''/data'',
      is_nsfw = False, nsfw_score = 0, full_probs = [],
      width = None, height = None, size_mb = None, error = Some (str err)\<rparr>"

definition scan_frames ::
  "env \<Rightarrow> string \<Rightarrow> path list \<Rightarrow> state \<Rightarrow> (error + frame_result list) \<times> state"
where
  "scan_frames e mtype frame_paths st =
     (if frame_paths = [] then (Inr [], st)
      else
        case await_frames e frame_paths 5 (clock st) [] of
          (Some missing, t) \<Rightarrow>
            (Inl (RuntimeError (''[ERROR] Final frames missing: '' @ repr_list missing)),
             st\<lparr>clock := t\<rparr>)
        | (None, t) \<Rightarrow>
            (case scan_stage e mtype frame_paths of
               Inr results \<Rightarrow> (Inr results, st\<lparr>clock := t\<rparr>)
             | Inl err \<Rightarrow> (Inr (map (degraded e err) frame_paths), st\<lparr>clock := t\<rparr>)))"

subsection \<open>The entrypoint\<close>

record image_verdict = frame_result +
  frame_count :: nat
  engine_version :: string

record video_verdict =
  v_filename :: string
  v_is_nsfw :: bool
  nsfw_score_max :: rat
  nsfw_score_avg :: rat
  v_full_probs :: "(string \<times> rat) list"
  v_frame_count :: nat
  v_engine_version :: string
  v_width :: "int option"
  v_height :: "int option"
  v_duration :: "rat option"
  v_fps :: "rat option"
  v_size_mb :: "rat option"
  v_error :: "string option"

text \<open>
  What \<open>analyze_media\<close> returns: \<open>None\<close> when it runs to the end of its body, or the
  dictionary \<open>{"results": video_results}\<close>.
\<close>

datatype analysis = PyNone | ResultsDict "video_verdict list"

text \<open>\<open>{**result, "frame_count": 1, "engine_version": "scan-engine-v1"}\<close>.\<close>

definition augment :: "frame_result \<Rightarrow> image_verdict" where
  "augment result = frame_result.extend result
     (image_verdict.fields 1 ''scan-engine-v1'')"

text \<open>\<open>[job["image_path"] for job in preprocessed_jobs]\<close>.\<close>

fun image_paths :: "preprocessed_job list \<Rightarrow> error + path list" where
  "image_paths [] = Inr []"
| "image_paths (ImageJob jid p # rest) =
     (case image_paths rest of Inl err \<Rightarrow> Inl err | Inr ps \<Rightarrow> Inr (p # ps))"
| "image_paths (VideoJob jid fs md # rest) = Inl (KeyError (q @ ''image_path'' @ q))"

text \<open>\<open>max(xs, key=key)\<close> on a list that is not empty: the first of the largest.\<close>

definition py_max :: "('a \<Rightarrow> rat) \<Rightarrow> 'a list \<Rightarrow> 'a" where
  "py_max key xs = foldl (\<lambda>best x. if key x > key best then x else best) (hd xs) (tl xs)"

text \<open>The verdict of one video job with at least one frame result (lines 240 to 257).\<close>

definition aggregate_video ::
  "env \<Rightarrow> string \<Rightarrow> video_metadata option \<Rightarrow> frame_result list \<Rightarrow> video_verdict"
where
  "aggregate_video e jid meta frame_results =
     (let most_nsfw = py_max nsfw_score frame_results;
          avg_score = fl (float_sum e (map nsfw_score frame_results)
                          / of_nat (length frame_results))
      in \<lparr>v_filename = (case meta of None \<Rightarrow> jid | Some m \<Rightarrow> md_original_filename m),
          v_is_nsfw = list_ex is_nsfw frame_results,
          nsfw_score_max = nsfw_score most_nsfw,
          nsfw_score_avg = py_round avg_score 4,
          v_full_probs = full_probs most_nsfw,
          v_frame_count = length frame_results,
          v_engine_version = ''scan-engine-v1'',
          v_width = map_option md_width meta,
          v_height = map_option md_height meta,
          v_duration = map_option md_duration meta,
          v_fps = map_option md_fps meta,
          v_size_mb = map_option md_size_mb meta,
          v_error = None\<rparr>)"

text \<open>The loop \<open>for job in preprocessed_jobs\<close> of the video branch.\<close>

fun analyze_videos ::
  "env \<Rightarrow> preprocessed_job list \<Rightarrow> video_verdict list \<Rightarrow> state \<Rightarrow>
   (error + video_verdict list) \<times> state"
where
  "analyze_videos e [] video_results st = (Inr video_results, st)"
| "analyze_videos e (ImageJob jid p # rest) video_results st =
     analyze_videos e rest video_results st"
| "analyze_videos e (VideoJob jid frames meta # rest) video_results st =
     (if frames = [] then analyze_videos e rest video_results st
      else
        case scan_frames e ''videos'' frames st of
          (Inl err, st1) \<Rightarrow> (Inl err, st1)
        | (Inr frame_results, st1) \<Rightarrow>
            if frame_results = [] then analyze_videos e rest video_results st1
            else analyze_videos e rest
                   (video_results @ [aggregate_video e jid meta frame_results]) st1)"

text \<open>
  \<open>analyze_media\<close>; \<open>round_id\<close> is the identifier drawn by \<open>uuid.uuid4()\<close>.  The video
  branch returns from inside the \<open>elif\<close>; the image branch runs on to the removal of the
  round's directory and to the end of the body.
\<close>

definition analyze_media ::
  "env \<Rightarrow> string \<Rightarrow> request \<Rightarrow> state \<Rightarrow> (error + analysis) \<times> state"
where
  "analyze_media e round_id request st =
     (case validate_input request of
        Inl err \<Rightarrow> (Inl err, st)
      | Inr u \<Rightarrow>
          (case preprocess_media e (media_type request) (jobs request) round_id st of
             (Inl err, st1) \<Rightarrow> (Inl err, st1)
           | (Inr preprocessed_jobs, st1) \<Rightarrow>
               if media_type request = ''images'' then
                 (case image_paths preprocessed_jobs of
                    Inl err \<Rightarrow> (Inl err, st1)
                  | Inr frame_paths \<Rightarrow>
                      (case scan_frames e (media_type request) frame_paths st1 of
                         (Inl err, st2) \<Rightarrow> (Inl err, st2)
                       | (Inr results, st2) \<Rightarrow>
                           let scan_results = map augment results
                           in (Inr PyNone, rmtree e (path_join BASE_DIR round_id) st2)))
               else if media_type request = ''videos'' then
                 (case analyze_videos e preprocessed_jobs [] st1 of
                    (Inl err, st2) \<Rightarrow> (Inl err, st2)
                  | (Inr video_results, st2) \<Rightarrow> (Inr (ResultsDict video_results), st2))
               else (Inr PyNone, rmtree e (path_join BASE_DIR round_id) st1)))"

text \<open>
  The list the image branch builds in \<open>scan_results\<close> before the function ends, for
  comparison with what is returned.
\<close>

definition image_scan_results ::
  "env \<Rightarrow> string \<Rightarrow> request \<Rightarrow> state \<Rightarrow> image_verdict list option"
where
  "image_scan_results e round_id request st =
     (case preprocess_media e (media_type request) (jobs request) round_id st of
        (Inl err, st1) \<Rightarrow> None
      | (Inr preprocessed_jobs, st1) \<Rightarrow>
          (case image_paths preprocessed_jobs of
             Inl err \<Rightarrow> None
           | Inr frame_paths \<Rightarrow>
               (case scan_frames e (media_type request) frame_paths st1 of
                  (Inl err, st2) \<Rightarrow> None
                | (Inr results, st2) \<Rightarrow> Some (map augment results))))"

subsection \<open>The handler (handler.py)\<close>

datatype response = Success analysis | Error string

definition handler :: "env \<Rightarrow> string \<Rightarrow> request \<Rightarrow> state \<Rightarrow> response \<times> state" where
  "handler e round_id event st =
     (case analyze_media e round_id event st of
        (Inr result, st1) \<Rightarrow> (Success result, st1)
      | (Inl err, st1) \<Rightarrow> (Error (str err), st1))"

section \<open>An example world\<close>

text \<open>
  A round \<open>r1\<close> on a server \<open>media.test\<close>: the video of job \<open>j1\<close> has the example
  staging directories, the video of job \<open>j2\<close> makes the scene sampler fail, the video of
  job \<open>j3\<close> lasts 301 seconds, and \<open>tiny.jpg\<close> is a file of 10 bytes that is no image.
  In \<open>ex_env_missing\<close> no file ever shows up on disk, in \<open>ex_env_late\<close> every file is
  there from 500 ms on.  The scores of the classifier are
  the doubles nearest to 0.1, 0.9 and 0.5, and floats are summed from left to right.
\<close>

definition ex_capture :: capture where
  "ex_capture = \<lparr>isOpened = True, CAP_PROP_FPS = 30, CAP_PROP_FRAME_COUNT = 300,
     CAP_PROP_FRAME_WIDTH = 640, CAP_PROP_FRAME_HEIGHT = 360,
     cap_frames = [[10, 10], [200, 180]]\<rparr>"

definition ex_probs :: "path \<Rightarrow> (string \<times> rat) list" where
  "ex_probs p =
     (if p = ''/tmp/data/r1/videos/j1/final/e4d909c290d0fb1ca068ffaddf22cbd0.jpg''
      then [(''normal'', fl (9 / 10)), (''nsfw'', fl (1 / 10))]
      else if p = ''/tmp/data/r1/videos/j1/final/9e107d9d372bb6826bd81d3542a419d6.jpg''
      then [(''normal'', fl (1 / 10)), (''nsfw'', fl (9 / 10))]
      else [(''normal'', 1 / 2), (''nsfw'', 1 / 2)])"

definition ex_env :: env where
  "ex_env =
     \<lparr>urlparse_path = drop 17,
      uuid4 = (\<lambda>u. ''u1''),
      fetch = (\<lambda>u. if u = ''http://media.test/tiny.jpg'' then Some 10 else Some 2000000),
      VideoCapture = (\<lambda>p. if p = ''/tmp/data/r1/videos/j3/u1.mp4''
                           then ex_capture\<lparr>CAP_PROP_FRAME_COUNT := 9030\<rparr> else ex_capture),
      ffmpeg_scene = (\<lambda>p. if p = ''/tmp/data/r1/videos/j2/u1.mp4''
                           then Some (FfmpegError ''ffmpeg error (see stderr output for detail)'')
                           else None),
      ffmpeg_fps = (\<lambda>p. None),
      listdir = (\<lambda>d. if d = ''/tmp/data/r1/videos/j1/scene'' then ex_scene
                      else if d = ''/tmp/data/r1/videos/j1/fps'' then ex_fps
                      else if d = ''/tmp/data/r1/videos/j1/spike'' then ex_spike else []),
      path_exists = (\<lambda>t p. True),
      getsize = (\<lambda>p. 2000000),
      image_open = (\<lambda>p. if p = ''/tmp/data/r1/images/j1.jpg''
                         then Some ''cannot identify image file'' else None),
      model_probs = (\<lambda>ps. Inr (map ex_probs ps)),
      imread = (\<lambda>p. Some (360, 640)),
      relpath = (\<lambda>p start. if prefix (start @ ''/'') p then drop (length start + 1) p
                          else if start = ''/data'' then ''..'' @ p else p),
      rmtree_ok = (\<lambda>p. True),
      float_sum = foldl (\<lambda>acc x. fl (acc + x)) 0\<rparr>"

definition st0 :: state where
  "st0 = \<lparr>dirs = [''/tmp''], done_files = [], clock = 0\<rparr>"

definition ex_work_dir :: path where
  "ex_work_dir = ''/tmp/data/r1/videos/j1''"

definition ex_video :: path where
  "ex_video = ''/tmp/data/r1/videos/j1/u1.mp4''"

definition ex_frames :: "path list" where
  "ex_frames =
     [''/tmp/data/r1/videos/j1/final/e4d909c290d0fb1ca068ffaddf22cbd0.jpg'',
      ''/tmp/data/r1/videos/j1/final/9e107d9d372bb6826bd81d3542a419d6.jpg'',
      ''/tmp/data/r1/videos/j1/final/d41d8cd98f00b204e9800998ecf8427e.jpg'',
      ''/tmp/data/r1/videos/j1/final/0cc175b9c0f1b6a831c399e269772661.jpg'']"

definition ex_env_missing :: env where
  "ex_env_missing = ex_env\<lparr>path_exists := (\<lambda>t p. False)\<rparr>"

definition ex_env_late :: env where
  "ex_env_late = ex_env\<lparr>path_exists := (\<lambda>t p. 500 \<le> t)\<rparr>"

definition ex_capture_slow :: capture where
  "ex_capture_slow = ex_capture\<lparr>CAP_PROP_FPS := 5, CAP_PROP_FRAME_COUNT := 50\<rparr>"

definition ex_image :: path where
  "ex_image = ''/tmp/data/r1/images/j1.jpg''"




text \<open>Requests to the example world.\<close>

definition ex_images_request :: request where
  "ex_images_request =
     \<lparr>media_type = ''images'', jobs = [\<lparr>job_id = ''j1'', url = ''http://media.test/tiny.jpg''\<rparr>]\<rparr>"

definition ex_job_broken :: job where
  "ex_job_broken = \<lparr>job_id = ''j2'', url = ''http://media.test/broken.mp4''\<rparr>"

definition ex_job_fine :: job where
  "ex_job_fine = \<lparr>job_id = ''j1'', url = ''http://media.test/fine.mp4''\<rparr>"

definition ex_job_long :: job where
  "ex_job_long = \<lparr>job_id = ''j3'', url = ''http://media.test/long.mp4''\<rparr>"

definition ex_videos_request :: request where
  "ex_videos_request = \<lparr>media_type = ''videos'', jobs = [ex_job_broken, ex_job_fine]\<rparr>"

definition ex_broken_request :: request where
  "ex_broken_request = \<lparr>media_type = ''videos'', jobs = [ex_job_broken]\<rparr>"

section \<open>Properties of the deduplication\<close>

lemma loop_uncapped_cnt:
  "add_frames_loop fd 0 fs c (seen, fp) = add_frames_loop fd 0 fs c' (seen, fp)"
proof (induction fs arbitrary: c c' seen fp)
  case Nil
  show ?case by simp
next
  case (Cons f fs)
  have "\<And>s p. add_frames_loop fd 0 fs c (s, p) = add_frames_loop fd 0 fs c' (s, p)"
       "\<And>s p. add_frames_loop fd 0 fs (Suc c) (s, p) = add_frames_loop fd 0 fs (Suc c') (s, p)"
    by (rule Cons.IH)+
  then show ?case
    by (simp split: option.splits)
qed

lemma loop_cap_take:
  "intact fs \<Longrightarrow> cap \<noteq> 0 \<Longrightarrow>
   add_frames_loop fd cap fs c (seen, fp) = add_frames_loop fd 0 (take (cap - c) fs) 0 (seen, fp)"
proof (induction fs arbitrary: c seen fp)
  case Nil
  show ?case by simp
next
  case (Cons f fs)
  from Cons.prems have f: "md5 f \<noteq> None" "movable f" and fs: "intact fs"
    by (auto simp: intact_def)
  then obtain h where h: "md5 f = Some h" by auto
  show ?case
  proof (cases "c \<ge> cap")
    case True
    then show ?thesis using Cons.prems(2) by simp
  next
    case False
    then have "cap - c = Suc (cap - Suc c)" by simp
    then have t: "take (cap - c) (f # fs) = f # take (cap - Suc c) fs"
      by (metis take_Suc_Cons)
    have ih: "\<And>s p. add_frames_loop fd cap fs (Suc c) (s, p) = add_frames_loop fd 0 (take (cap - Suc c) fs) 0 (s, p)"
      by (rule Cons.IH[OF fs Cons.prems(2)])
    have u: "\<And>s p. add_frames_loop fd 0 (take (cap - Suc c) fs) (Suc 0) (s, p) = add_frames_loop fd 0 (take (cap - Suc c) fs) 0 (s, p)"
      by (rule loop_uncapped_cnt)
    show ?thesis unfolding t
      using False h f by (simp add: ih u)
  qed
qed


lemma loop_length:
  "cap \<noteq> 0 \<Longrightarrow> c \<le> cap \<Longrightarrow>
   length (snd (add_frames_loop fd cap fs c (seen, fp))) \<le> length fp + (cap - c)"
proof (induction fs arbitrary: c seen fp)
  case Nil
  show ?case by simp
next
  case (Cons f fs)
  show ?case
  proof (cases "c \<ge> cap")
    case True
    then show ?thesis using Cons.prems by simp
  next
    case False
    then have lt: "Suc c \<le> cap" by simp
    have a: "\<And>s p. length (snd (add_frames_loop fd cap fs (Suc c) (s, p))) \<le> length p + (cap - Suc c)"
      by (rule Cons.IH[OF Cons.prems(1) lt])
    have b: "\<And>s p. length (snd (add_frames_loop fd cap fs c (s, p))) \<le> length p + (cap - c)"
      by (rule Cons.IH[OF Cons.prems])
    have a1: "\<And>s. length (snd (add_frames_loop fd cap fs (Suc c) (s, fp))) \<le> length fp + (cap - c)"
      using a[of _ fp] by (meson diff_le_mono2 le_SucI le_refl add_le_mono order_trans)
    have a2: "\<And>s h. length (snd (add_frames_loop fd cap fs (Suc c) (s, fp @ [h]))) \<le> length fp + (cap - c)"
    proof -
      fix s h
      have "length (snd (add_frames_loop fd cap fs (Suc c) (s, fp @ [h]))) \<le> length (fp @ [h]) + (cap - Suc c)"
        by (rule a)
      also have "\<dots> = length fp + (cap - c)" using lt by simp
      finally show "length (snd (add_frames_loop fd cap fs (Suc c) (s, fp @ [h]))) \<le> length fp + (cap - c)" .
    qed
    show ?thesis
      using False a1 a2 b by (auto split: option.splits)
  qed
qed


lemma filter_removeAll_comm: "filter P (removeAll h xs) = removeAll h (filter P xs)"
  by (induction xs) auto


lemma removeAll_filter_notin:
  "removeAll x (filter (\<lambda>h. h \<notin> A) ys) = filter (\<lambda>h. h \<notin> insert x A) ys"
  by (induction ys) auto

lemma first_wins_append:
  "first_wins (xs @ ys) = first_wins xs @ filter (\<lambda>h. h \<notin> set xs) (first_wins ys)"
  by (induction xs) (simp_all add: removeAll_filter_notin)






lemma loop_uncapped:
  "intact fs \<Longrightarrow>
   add_frames_loop fd 0 fs c (seen, fp) =
     (seen \<union> set (List.map_filter md5 fs),
      fp @ map (dest fd) (filter (\<lambda>h. h \<notin> seen) (first_wins (List.map_filter md5 fs))))"
proof (induction fs arbitrary: c seen fp)
  case Nil
  show ?case by (simp add: List.map_filter_simps)
next
  case (Cons f fs)
  from Cons.prems have f: "movable f" and fs: "intact fs"
    and "md5 f \<noteq> None" by (auto simp: intact_def)
  then obtain h where h: "md5 f = Some h" by auto
  let ?hs = "List.map_filter md5 fs"
  have ih: "\<And>c s p. add_frames_loop fd 0 fs c (s, p) =
     (s \<union> set ?hs, p @ map (dest fd) (filter (\<lambda>h. h \<notin> s) (first_wins ?hs)))"
    by (rule Cons.IH[OF fs])
  have hs: "List.map_filter md5 (f # fs) = h # ?hs"
    using h by (simp add: List.map_filter_simps)
  show ?case
  proof (cases "h \<in> seen")
    case True
    have "filter (\<lambda>x. x \<notin> seen) (removeAll h (first_wins ?hs)) = filter (\<lambda>x. x \<notin> seen) (first_wins ?hs)"
      using True by (simp add: removeAll_filter_not_eq) (metis (mono_tags, lifting) filter_cong)
    then show ?thesis using True h unfolding hs
      by (auto simp: ih)
  next
    case False
    have "filter (\<lambda>x. x \<notin> seen) (removeAll h (first_wins ?hs))
        = filter (\<lambda>x. x \<notin> insert h seen) (first_wins ?hs)"
      by (simp add: filter_removeAll_comm removeAll_filter_notin)
    then show ?thesis using False h f unfolding hs
      by (simp add: ih)
  qed
qed

lemma intact_sort: "intact (sort_key fname listing) = intact listing"
  by (simp add: intact_def)

lemma intact_take: "intact fs \<Longrightarrow> intact (take n fs)"
  by (auto simp: intact_def dest: in_set_takeD)

lemma intact_visited: "intact listing \<Longrightarrow> intact (visited cap listing)"
  by (simp add: visited_def capped_def intact_sort intact_take)

lemma add_frames_visited:
  assumes "intact listing"
  shows "add_frames fd listing cap (seen, fp) =
         add_frames_loop fd 0 (visited cap listing) 0 (seen, fp)"
proof (cases "cap = 0")
  case True
  then show ?thesis by (simp add: add_frames_def visited_def capped_def)
next
  case False
  have "intact (sort_key fname listing)" using assms by (simp add: intact_sort)
  from loop_cap_take[OF this False, of fd 0 seen fp]
  show ?thesis using False by (simp add: add_frames_def visited_def capped_def)
qed

lemma add_frames_first_wins:
  assumes "intact listing"
  shows "add_frames fd listing cap (seen, fp) =
     (seen \<union> set (List.map_filter md5 (visited cap listing)),
      fp @ map (dest fd) (filter (\<lambda>h. h \<notin> seen) (first_wins (List.map_filter md5 (visited cap listing)))))"
  using add_frames_visited[OF assms] loop_uncapped[OF intact_visited[OF assms]] by simp

lemma map_filter_append: "List.map_filter f (xs @ ys) = List.map_filter f xs @ List.map_filter f ys"
  by (simp add: List.map_filter_def)

lemma deduplicate_first_wins:
  assumes "intact scene" "intact fps" "intact spike"
  shows "deduplicate fd scene fps spike mf =
         map (dest fd) (first_wins (candidate_hashes scene fps spike mf))"
proof -
  let ?a = "List.map_filter md5 (visited default_cap scene)"
  let ?b = "List.map_filter md5 (visited mf fps)"
  let ?c = "List.map_filter md5 (visited default_cap spike)"
  have "filter (\<lambda>h. h \<notin> set ?a \<union> set ?b) (first_wins ?c) =
        filter (\<lambda>h. h \<notin> set ?a) (filter (\<lambda>h. h \<notin> set ?b) (first_wins ?c))"
    by (simp add: conj_commute)
  then show ?thesis
    unfolding deduplicate_def candidate_hashes_def map_filter_append first_wins_append
      filter_append
    by (simp add: add_frames_first_wins[OF assms(1)] add_frames_first_wins[OF assms(2)]
        add_frames_first_wins[OF assms(3)])
qed


lemma digit_less: "a < 10 \<Longrightarrow> b < 10 \<Longrightarrow> digit a < digit b \<longleftrightarrow> a < b"
  by (simp add: digit_def less_char_def)

lemma digit_inj: "a < 10 \<Longrightarrow> b < 10 \<Longrightarrow> digit a = digit b \<longleftrightarrow> a = b"
  using digit_less[of a b] digit_less[of b a] by (metis nat_neq_iff less_irrefl)

lemma split3: "(i::nat) = 100 * (i div 100) + 10 * (i div 10 mod 10) + i mod 10"
proof -
  have "i div 10 = 10 * (i div 10 div 10) + i div 10 mod 10" by simp
  moreover have "i div 10 div 10 = i div 100" by (simp add: div_mult2_eq[symmetric])
  moreover have "i = 10 * (i div 10) + i mod 10" by simp
  ultimately show ?thesis by linarith
qed

lemma lex3:
  assumes "(i::nat) < j"
  shows "i div 100 < j div 100 \<or> (i div 100 = j div 100 \<and> (i div 10 mod 10 < j div 10 mod 10 \<or> (i div 10 mod 10 = j div 10 mod 10 \<and> i mod 10 < j mod 10)))"
proof -
  have a: "i mod 10 < 10" "j mod 10 < 10" "i div 10 mod 10 < 10" "j div 10 mod 10 < 10" by simp_all
  show ?thesis using assms split3[of i] split3[of j] a by linarith
qed

lemma frame_name_mono: 
  assumes "i < j" "j < 1000" shows "frame_name i < frame_name j"
proof -
  have d: "i div 100 < 10" "j div 100 < 10" "i div 10 mod 10 < 10" "j div 10 mod 10 < 10" "i mod 10 < 10" "j mod 10 < 10"
    using assms by simp_all
  show ?thesis
    unfolding frame_name_def using d lex3[OF assms(1)] by (simp add: digit_less digit_inj)
qed

lemma sorted_frame_names: "b \<le> 1000 \<Longrightarrow> sorted (map frame_name [a..<b])"
  unfolding sorted_iff_nth_mono_less
  by (auto intro!: less_imp_le frame_name_mono)

lemma sort_ex_scene_251: "sort_key fname ex_scene_251 = ex_scene_251"
proof -
  have "map fname ex_scene_251 = map frame_name [1..<252]"
    by (simp add: ex_scene_251_def)
  then show ?thesis
    using sorted_frame_names[of 252 1] by (simp add: sort_key_id_if_sorted)
qed

lemma first_wins_replicate: "first_wins (replicate (Suc n) h) = [h]"
  by (induction n) simp_all

lemma hashes_ex_scene_251:
  "List.map_filter md5 (visited default_cap ex_scene_251) =
     replicate 250 ''e4d909c290d0fb1ca068ffaddf22cbd0''"
proof -
  have "take 250 [1..<252] = [1..<251]"
    using take_upt[of 1 250 252] by simp
  then have "visited default_cap ex_scene_251 =
     map (\<lambda>i. \<lparr>fname = frame_name i,
               md5 = Some (if i \<le> 250 then ''e4d909c290d0fb1ca068ffaddf22cbd0''
                           else ''9e107d9d372bb6826bd81d3542a419d6''),
               movable = True\<rparr>) [1..<251]"
    unfolding visited_def capped_def sort_ex_scene_251
    by (simp add: default_cap_def ex_scene_251_def take_map)
  then have "List.map_filter md5 (visited default_cap ex_scene_251) =
      map (\<lambda>i. ''e4d909c290d0fb1ca068ffaddf22cbd0'') [1..<251]"
    by (simp add: List.map_filter_def comp_def)
  then show ?thesis by (simp add: map_replicate_const)
qed

lemma loop_uncapped_append:
  "add_frames_loop fd 0 (xs @ ys) c (seen, fp) =
   add_frames_loop fd 0 ys c' (add_frames_loop fd 0 xs c (seen, fp))"
proof (induction xs arbitrary: c seen fp)
  case Nil
  show ?case using loop_uncapped_cnt[of fd ys c seen fp c'] by simp
next
  case (Cons f fs)
  have a: "\<And>c s p. add_frames_loop fd 0 (fs @ ys) c (s, p) =
   add_frames_loop fd 0 ys c' (add_frames_loop fd 0 fs c (s, p))"
    by (rule Cons.IH)
  show ?case by (simp add: a split: option.splits)
qed


subsection \<open>Caps (C5)\<close>

text \<open>
  Claim C5, as the code has it: every staging directory is capped.  The scene and the spike
  directory are cut at the default cap of 250 files, the fps directory at \<open>max_fps_frames\<close>
  (no cut when that is 0): on readable and movable files the three calls of \<open>add_frames\<close>
  do what an uncapped pass over the first files of each sorted listing does; and whatever the
  files are, a call with a cap appends at most that many paths.
\<close>

theorem add_frames_caps:
  assumes "intact (scene @ fps @ spike)"
  shows "deduplicate fd scene fps spike mf =
           snd (add_frames_loop fd 0
                  (take 250 (sort_key fname scene)
                   @ (if mf = 0 then sort_key fname fps else take mf (sort_key fname fps))
                   @ take 250 (sort_key fname spike)) 0 ({}, []))
       \<and> (cap \<noteq> 0 \<longrightarrow>
            length (snd (add_frames fd listing cap (seen, fp))) \<le> length fp + cap)"
proof (intro conjI impI)
  from assms have i: "intact scene" "intact fps" "intact spike"
    by (auto simp: intact_def)
  have v: "visited default_cap scene = take 250 (sort_key fname scene)"
    "visited mf fps = (if mf = 0 then sort_key fname fps else take mf (sort_key fname fps))"
    "visited default_cap spike = take 250 (sort_key fname spike)"
    by (simp_all add: visited_def capped_def default_cap_def)
  have "deduplicate fd scene fps spike mf =
      snd (add_frames_loop fd 0 (visited default_cap spike) 0
        (add_frames_loop fd 0 (visited mf fps) 0
          (add_frames_loop fd 0 (visited default_cap scene) 0 ({}, []))))"
    unfolding deduplicate_def add_frames_visited[OF i(1)]
    by (metis add_frames_visited i(2) i(3) prod.collapse)
  also have "\<dots> = snd (add_frames_loop fd 0
       (visited default_cap scene @ visited mf fps @ visited default_cap spike) 0 ({}, []))"
    by (metis loop_uncapped_append prod.collapse)
  finally show "deduplicate fd scene fps spike mf =
           snd (add_frames_loop fd 0
                  (take 250 (sort_key fname scene)
                   @ (if mf = 0 then sort_key fname fps else take mf (sort_key fname fps))
                   @ take 250 (sort_key fname spike)) 0 ({}, []))"
    unfolding v .
next
  assume "cap \<noteq> 0"
  then show "length (snd (add_frames fd listing cap (seen, fp))) \<le> length fp + cap"
    using loop_length[of cap 0 fd "sort_key fname listing" seen fp]
    by (simp add: add_frames_def)
qed

text \<open>The example directories satisfy the hypotheses of the cap theorem.\<close>

theorem add_frames_caps_witness:
  "intact (ex_scene @ ex_fps @ ex_spike) \<and> (60::nat) \<noteq> 0
   \<and> deduplicate ex_final_dir ex_scene ex_fps ex_spike 60 =
           snd (add_frames_loop ex_final_dir 0
                  (take 250 (sort_key fname ex_scene) @ take 60 (sort_key fname ex_fps)
                   @ take 250 (sort_key fname ex_spike)) 0 ({}, []))
   \<and> length (snd (add_frames ex_final_dir ex_fps 60 ({}, []))) \<le> 60"
proof -
  have i: "intact (ex_scene @ ex_fps @ ex_spike)"
    by (simp add: intact_def ex_scene_def ex_fps_def ex_spike_def)
  show ?thesis
    using add_frames_caps[OF i, of ex_final_dir 60 60 ex_fps "{}" "[]"] i
    by simp
qed

text \<open>
  Claim C5 as stated fails: in a scene directory of 251 readable files the last file, whose
  content no other file has, is never visited, so its hash is not claimed.
\<close>

theorem scene_uncapped_counterexample:
  "length ex_scene_251 = 251
   \<and> ex_scene_251 ! 250 = \<lparr>fname = ''frame_251.jpg'',
         md5 = Some ''9e107d9d372bb6826bd81d3542a419d6'', movable = True\<rparr>
   \<and> deduplicate ex_final_dir ex_scene_251 [] [] 60 =
       [''/tmp/data/r1/videos/j1/final/e4d909c290d0fb1ca068ffaddf22cbd0.jpg'']"
proof -
  have i: "intact ex_scene_251" "intact []"
    by (simp_all add: intact_def ex_scene_251_def)
  have n: "([1..<252] :: nat list) ! 250 = 251"
    using nth_upt[of 1 250 252] by simp
  have e: "ex_scene_251 ! 250 = \<lparr>fname = ''frame_251.jpg'',
         md5 = Some ''9e107d9d372bb6826bd81d3542a419d6'', movable = True\<rparr>"
    unfolding ex_scene_251_def by (simp add: n frame_name_def digit_def) code_simp
  have c: "candidate_hashes ex_scene_251 [] [] 60 = replicate 250 ''e4d909c290d0fb1ca068ffaddf22cbd0''"
    unfolding candidate_hashes_def
    by (simp add: map_filter_append hashes_ex_scene_251) (simp add: visited_def capped_def List.map_filter_simps)
  have "replicate 250 ''e4d909c290d0fb1ca068ffaddf22cbd0'' = replicate (Suc 249) ''e4d909c290d0fb1ca068ffaddf22cbd0''"
    by simp
  then have f: "first_wins (candidate_hashes ex_scene_251 [] [] 60) = [''e4d909c290d0fb1ca068ffaddf22cbd0'']"
    unfolding c by (simp only: first_wins_replicate)
  show ?thesis
    using deduplicate_first_wins[OF i(1) i(2) i(2), of ex_final_dir 60] e
    unfolding f
    by (simp add: dest_def path_join_def ex_final_dir_def) (simp add: ex_scene_251_def)
qed

subsection \<open>First writer wins (C10)\<close>



section \<open>The readiness marker (C7)\<close>

lemma missing_at_Nil: "missing_at e t ps = [] \<longleftrightarrow> (\<forall>p \<in> set ps. path_exists e t p)"
  by (auto simp: missing_at_def filter_empty_conv)

text \<open>The loop stops at the first check that finds every frame, after \<open>k\<close> sleeps.\<close>

lemma flush_wait_first:
  "1 \<le> k \<Longrightarrow> k \<le> n \<Longrightarrow> missing_at e (t + 250 * k) ps = [] \<Longrightarrow>
   (\<forall>j. 1 \<le> j \<and> j < k \<longrightarrow> missing_at e (t + 250 * j) ps \<noteq> []) \<Longrightarrow>
   flush_wait e ps n t missing = ([], t + 250 * k)"
proof (induction n arbitrary: t missing k)
  case 0
  then show ?case by simp
next
  case (Suc n)
  show ?case
  proof (cases "k = 1")
    case True
    then show ?thesis using Suc.prems(3) by simp
  next
    case False
    define k' where "k' = k - 1"
    have k: "k = Suc k'" "1 \<le> k'" "k' \<le> n"
      using False Suc.prems(1,2) unfolding k'_def by linarith+
    have a: "missing_at e (t + 250) ps \<noteq> []"
      using Suc.prems(4)[rule_format, of 1] k by simp
    have b: "missing_at e (t + 250 + 250 * k') ps = []"
      using Suc.prems(3) k by (simp add: add.assoc)
    have c: "\<forall>j. 1 \<le> j \<and> j < k' \<longrightarrow> missing_at e (t + 250 + 250 * j) ps \<noteq> []"
    proof (intro allI impI)
      fix j assume "1 \<le> j \<and> j < k'"
      then have "missing_at e (t + 250 * (Suc j)) ps \<noteq> []"
        using Suc.prems(4)[rule_format, of "Suc j"] k by simp
      then show "missing_at e (t + 250 + 250 * j) ps \<noteq> []" by (simp add: add.assoc)
    qed
    have "flush_wait e ps n (t + 250) (missing_at e (t + 250) ps) = ([], t + 250 + 250 * k')"
      by (rule Suc.IH[OF k(2,3) b c])
    then show ?thesis using a k by (simp add: add.assoc)
  qed
qed

text \<open>When the loop ends with frames missing, it has slept \<open>n\<close> times and found a frame
  missing at every check.\<close>

lemma flush_wait_exhausted:
  "flush_wait e ps n t missing = (m', t') \<Longrightarrow> m' \<noteq> [] \<Longrightarrow>
   t' = t + 250 * n \<and> (\<forall>k. 1 \<le> k \<and> k \<le> n \<longrightarrow> missing_at e (t + 250 * k) ps \<noteq> [])"
proof (induction n arbitrary: t missing)
  case 0
  then show ?case by simp
next
  case (Suc n)
  have a: "missing_at e (t + 250) ps \<noteq> []"
    using Suc.prems by (auto simp: Let_def split: if_splits)
  then have "flush_wait e ps n (t + 250) (missing_at e (t + 250) ps) = (m', t')"
    using Suc.prems by simp
  from Suc.IH[OF this Suc.prems(2)]
  have ih: "t' = t + 250 + 250 * n"
    "\<forall>k. 1 \<le> k \<and> k \<le> n \<longrightarrow> missing_at e (t + 250 + 250 * k) ps \<noteq> []" by simp_all
  have "missing_at e (t + 250 * k) ps \<noteq> []" if "1 \<le> k \<and> k \<le> Suc n" for k
  proof (cases "k = 1")
    case True
    then show ?thesis using a by simp
  next
    case False
    define k' where "k' = k - 1"
    have k: "k = Suc k'" "1 \<le> k'" "k' \<le> n"
      using False that unfolding k'_def by linarith+
    then show ?thesis using ih(2)[rule_format, of k'] by (simp add: add.assoc)
  qed
  then show ?case using ih(1) by simp
qed

lemma flush_wait_still_missing:
  "missing \<noteq> [] \<Longrightarrow> (\<forall>k. 1 \<le> k \<and> k \<le> n \<longrightarrow> missing_at e (t + 250 * k) ps \<noteq> []) \<Longrightarrow>
   fst (flush_wait e ps n t missing) \<noteq> []"
proof (induction n arbitrary: t missing)
  case 0
  then show ?case by simp
next
  case (Suc n)
  have a: "missing_at e (t + 250) ps \<noteq> []"
    using Suc.prems(2)[rule_format, of 1] by simp
  have "\<forall>k. 1 \<le> k \<and> k \<le> n \<longrightarrow> missing_at e (t + 250 + 250 * k) ps \<noteq> []"
  proof (intro allI impI)
    fix k assume "1 \<le> k \<and> k \<le> n"
    then have "missing_at e (t + 250 * (Suc k)) ps \<noteq> []"
      using Suc.prems(2)[rule_format, of "Suc k"] by simp
    then show "missing_at e (t + 250 + 250 * k) ps \<noteq> []" by (simp add: add.assoc)
  qed
  from Suc.IH[OF a this] a show ?case by simp
qed

lemma clock_makedirs [simp]: "clock (makedirs p st) = clock st"
  by (simp add: makedirs_def)

lemma done_files_makedirs [simp]: "done_files (makedirs p st) = done_files st"
  by (simp add: makedirs_def)

text \<open>
  What \<open>extract_video_frames\<close> does once the samplers have succeeded, by the first of the
  eleven checks (at the start and after each of ten sleeps of 250 ms) that finds every
  claimed frame.
\<close>

lemma extract_found_at:
  assumes "run_strategies e video_path = None"
    and "frame_paths = deduplicate (path_join output_dir ''final'')
            (listdir e (path_join output_dir ''scene'')) (listdir e (path_join output_dir ''fps''))
            (listdir e (path_join output_dir ''spike'')) mf"
    and "k \<le> 10"
    and "missing_at e (clock st + 250 * k) frame_paths = []"
    and "\<forall>j < k. missing_at e (clock st + 250 * j) frame_paths \<noteq> []"
  shows "extract_video_frames e video_path output_dir mf st =
     (Inr frame_paths,
      (makedirs (path_join output_dir ''final'') (makedirs (path_join output_dir ''spike'')
        (makedirs (path_join output_dir ''fps'') (makedirs (path_join output_dir ''scene'')
          (makedirs output_dir st)))))
      \<lparr>clock := clock st + 250 * k,
        done_files := (path_join output_dir ''done.json'',
           \<lparr>total_frames = length frame_paths, done_output_dir = output_dir,
            done_final_dir = path_join output_dir ''final''\<rparr>) # done_files st\<rparr>)"
proof (cases "k = 0")
  case True
  then show ?thesis using assms(1,4) unfolding assms(2)
    by (simp add: extract_video_frames_def Let_def)
next
  case False
  then have k: "1 \<le> k" by simp
  have m0: "missing_at e (clock st) frame_paths \<noteq> []"
    using assms(5)[rule_format, of 0] False by simp
  have "\<forall>j. 1 \<le> j \<and> j < k \<longrightarrow> missing_at e (clock st + 250 * j) frame_paths \<noteq> []"
    using assms(5) by simp
  from flush_wait_first[OF k assms(3,4) this]
  have "flush_wait e frame_paths 10 (clock st) (missing_at e (clock st) frame_paths) =
      ([], clock st + 250 * k)" .
  then show ?thesis using assms(1) m0 unfolding assms(2)
    by (simp add: extract_video_frames_def Let_def)
qed

lemma extract_not_found:
  assumes "run_strategies e video_path = None"
    and "frame_paths = deduplicate (path_join output_dir ''final'')
            (listdir e (path_join output_dir ''scene'')) (listdir e (path_join output_dir ''fps''))
            (listdir e (path_join output_dir ''spike'')) mf"
    and "\<forall>k \<le> 10. missing_at e (clock st + 250 * k) frame_paths \<noteq> []"
  shows "extract_video_frames e video_path output_dir mf st =
     (Inl (FileNotFoundError ''Some final frames were not written to disk.''),
      (makedirs (path_join output_dir ''final'') (makedirs (path_join output_dir ''spike'')
        (makedirs (path_join output_dir ''fps'') (makedirs (path_join output_dir ''scene'')
          (makedirs output_dir st)))))\<lparr>clock := clock st + 2500\<rparr>)"
proof -
  let ?m0 = "missing_at e (clock st) frame_paths"
  have m0: "?m0 \<noteq> []" using assms(3)[rule_format, of 0] by simp
  obtain m t where fw: "flush_wait e frame_paths 10 (clock st) ?m0 = (m, t)"
    by (cases "flush_wait e frame_paths 10 (clock st) ?m0")
  have "\<forall>k. 1 \<le> k \<and> k \<le> 10 \<longrightarrow> missing_at e (clock st + 250 * k) frame_paths \<noteq> []"
    using assms(3) by simp
  from flush_wait_still_missing[OF m0 this] fw have m: "m \<noteq> []" by simp
  from flush_wait_exhausted[OF fw m] have t: "t = clock st + 2500" by simp
  show ?thesis using assms(1) m0 fw m t unfolding assms(2)
    by (simp add: extract_video_frames_def Let_def)
qed

lemma first_check:
  fixes P :: "nat \<Rightarrow> bool"
  assumes "\<not> (\<forall>k \<le> n. \<not> P k)"
  shows "\<exists>k \<le> n. P k \<and> (\<forall>j < k. \<not> P j)"
proof -
  from assms obtain k0 where k0: "k0 \<le> n" "P k0" by auto
  define k where "k = (LEAST k. P k)"
  have "P k" unfolding k_def using k0(2) by (rule LeastI)
  moreover have "k \<le> k0" unfolding k_def using k0(2) by (rule Least_le)
  moreover have "\<forall>j < k. \<not> P j" unfolding k_def using not_less_Least by blast
  ultimately show ?thesis using k0(1) by (intro exI[of _ k]) simp
qed

text \<open>
  Claim C7: when \<open>extract_video_frames\<close> returns, it returns the claimed final frames,
  \<open>done.json\<close> holds their number, every one of them was found on disk at the last check
  (the time of the returned state), and at most 2500 ms were slept; when it raises, no
  marker is written.  Once the samplers have succeeded there are up to eleven checks, at
  the start and after each of ten sleeps of 250 ms: the first check that finds every frame
  ends the wait at that time and the marker is written; when some frame is missing at each
  of the eleven checks, the not-found error is raised after 2500 ms; and nothing else makes
  the extraction raise after the samplers.  An exception of a sampler is raised without
  any wait.
\<close>

theorem readiness_marker_after_verification:
  assumes "extract_video_frames e video_path output_dir mf st = (r, st')"
    and "frame_paths = deduplicate (path_join output_dir ''final'')
            (listdir e (path_join output_dir ''scene'')) (listdir e (path_join output_dir ''fps''))
            (listdir e (path_join output_dir ''spike'')) mf"
  shows "(\<forall>fs. r = Inr fs \<longrightarrow>
            fs = frame_paths
          \<and> map_of (done_files st') (path_join output_dir ''done.json'') =
              Some \<lparr>total_frames = length frame_paths, done_output_dir = output_dir,
                    done_final_dir = path_join output_dir ''final''\<rparr>
          \<and> (\<forall>p \<in> set frame_paths. path_exists e (clock st') p)
          \<and> clock st \<le> clock st' \<and> clock st' \<le> clock st + 2500)
       \<and> (\<forall>err. r = Inl err \<longrightarrow> done_files st' = done_files st)
       \<and> (run_strategies e video_path = None \<and>
            (\<forall>k \<le> 10. \<exists>p \<in> set frame_paths. \<not> path_exists e (clock st + 250 * k) p) \<longrightarrow>
            r = Inl (FileNotFoundError ''Some final frames were not written to disk.'')
          \<and> clock st' = clock st + 2500)
       \<and> (\<forall>k \<le> 10.
            run_strategies e video_path = None
          \<and> (\<forall>p \<in> set frame_paths. path_exists e (clock st + 250 * k) p)
          \<and> (\<forall>j < k. \<exists>p \<in> set frame_paths. \<not> path_exists e (clock st + 250 * j) p) \<longrightarrow>
            r = Inr frame_paths \<and> clock st' = clock st + 250 * k)
       \<and> (\<forall>err. run_strategies e video_path = None \<and> r = Inl err \<longrightarrow>
            (\<forall>k \<le> 10. \<exists>p \<in> set frame_paths. \<not> path_exists e (clock st + 250 * k) p))
       \<and> (\<forall>err. run_strategies e video_path = Some err \<longrightarrow> r = Inl err \<and> clock st' = clock st)"
proof -
  let ?miss = "\<lambda>k. \<exists>p \<in> set frame_paths. \<not> path_exists e (clock st + 250 * k) p"
  have miss: "?miss k \<longleftrightarrow> missing_at e (clock st + 250 * k) frame_paths \<noteq> []" for k
    by (simp add: missing_at_Nil)
  have found: "r = Inr frame_paths \<and> clock st' = clock st + 250 * k
      \<and> done_files st' = (path_join output_dir ''done.json'',
           \<lparr>total_frames = length frame_paths, done_output_dir = output_dir,
            done_final_dir = path_join output_dir ''final''\<rparr>) # done_files st"
    if "run_strategies e video_path = None" "k \<le> 10" "\<not> ?miss k" "\<forall>j < k. ?miss j" for k
  proof -
    have a: "missing_at e (clock st + 250 * k) frame_paths = []" using that(3) miss by blast
    have b: "\<forall>j < k. missing_at e (clock st + 250 * j) frame_paths \<noteq> []"
      using that(4) miss by blast
    from extract_found_at[OF that(1) assms(2) that(2) a b] assms(1) show ?thesis by auto
  qed
  have notfound: "r = Inl (FileNotFoundError ''Some final frames were not written to disk.'')
      \<and> clock st' = clock st + 2500 \<and> done_files st' = done_files st"
    if "run_strategies e video_path = None" "\<forall>k \<le> 10. ?miss k"
  proof -
    have "\<forall>k \<le> 10. missing_at e (clock st + 250 * k) frame_paths \<noteq> []"
      using that(2) miss by blast
    from extract_not_found[OF that(1) assms(2) this] assms(1) show ?thesis by auto
  qed
  have raised: "r = Inl err \<and> st' = makedirs (path_join output_dir ''final'')
        (makedirs (path_join output_dir ''spike'') (makedirs (path_join output_dir ''fps'')
          (makedirs (path_join output_dir ''scene'') (makedirs output_dir st))))"
    if "run_strategies e video_path = Some err" for err
    using that assms(1) by (auto simp: extract_video_frames_def Let_def)
  have 1: "\<forall>fs. r = Inr fs \<longrightarrow>
            fs = frame_paths
          \<and> map_of (done_files st') (path_join output_dir ''done.json'') =
              Some \<lparr>total_frames = length frame_paths, done_output_dir = output_dir,
                    done_final_dir = path_join output_dir ''final''\<rparr>
          \<and> (\<forall>p \<in> set frame_paths. path_exists e (clock st') p)
          \<and> clock st \<le> clock st' \<and> clock st' \<le> clock st + 2500"
  proof (intro allI impI)
    fix fs assume r: "r = Inr fs"
    then have none: "run_strategies e video_path = None"
      using raised by (cases "run_strategies e video_path") auto
    have "\<not> (\<forall>k \<le> 10. ?miss k)" using notfound[OF none] r by auto
    then have "\<exists>k \<le> 10. \<not> ?miss k \<and> (\<forall>j < k. \<not> \<not> ?miss j)"
      by (intro first_check[of 10 "\<lambda>k. \<not> ?miss k"]) simp
    then obtain k where k: "k \<le> 10" "\<not> ?miss k" "\<forall>j < k. ?miss j" by auto
    from found[OF none k] have f: "r = Inr frame_paths" "clock st' = clock st + 250 * k"
      "done_files st' = (path_join output_dir ''done.json'',
           \<lparr>total_frames = length frame_paths, done_output_dir = output_dir,
            done_final_dir = path_join output_dir ''final''\<rparr>) # done_files st" by simp_all
    have "\<forall>p \<in> set frame_paths. path_exists e (clock st') p" using k(2) f(2) by simp
    then show "fs = frame_paths
          \<and> map_of (done_files st') (path_join output_dir ''done.json'') =
              Some \<lparr>total_frames = length frame_paths, done_output_dir = output_dir,
                    done_final_dir = path_join output_dir ''final''\<rparr>
          \<and> (\<forall>p \<in> set frame_paths. path_exists e (clock st') p)
          \<and> clock st \<le> clock st' \<and> clock st' \<le> clock st + 2500"
      using r f k(1) by simp
  qed
  have 5: "\<forall>err. run_strategies e video_path = None \<and> r = Inl err \<longrightarrow> (\<forall>k \<le> 10. ?miss k)"
  proof (rule allI, rule impI, elim conjE)
    fix err assume none: "run_strategies e video_path = None" and r: "r = Inl err"
    show "\<forall>k \<le> 10. ?miss k"
    proof (rule ccontr)
      assume "\<not> (\<forall>k \<le> 10. ?miss k)"
      then have "\<exists>k \<le> 10. \<not> ?miss k \<and> (\<forall>j < k. \<not> \<not> ?miss j)"
        by (intro first_check[of 10 "\<lambda>k. \<not> ?miss k"]) simp
      then obtain k where k: "k \<le> 10" "\<not> ?miss k" "\<forall>j < k. ?miss j" by auto
      from found[OF none k] r show False by simp
    qed
  qed
  have 2: "\<forall>err. r = Inl err \<longrightarrow> done_files st' = done_files st"
  proof (intro allI impI)
    fix err assume r: "r = Inl err"
    show "done_files st' = done_files st"
    proof (cases "run_strategies e video_path")
      case None
      from 5 None r have "\<forall>k \<le> 10. ?miss k" by blast
      from notfound[OF None this] show ?thesis by simp
    next
      case (Some err')
      from raised[OF Some] show ?thesis by simp
    qed
  qed
  have 3: "run_strategies e video_path = None \<and> (\<forall>k \<le> 10. ?miss k) \<longrightarrow>
            r = Inl (FileNotFoundError ''Some final frames were not written to disk.'')
          \<and> clock st' = clock st + 2500"
    using notfound by blast
  have 4: "\<forall>k \<le> 10.
            run_strategies e video_path = None
          \<and> (\<forall>p \<in> set frame_paths. path_exists e (clock st + 250 * k) p)
          \<and> (\<forall>j < k. ?miss j) \<longrightarrow>
            r = Inr frame_paths \<and> clock st' = clock st + 250 * k"
  proof (intro allI impI, elim conjE)
    fix k :: nat
    assume "k \<le> 10" "run_strategies e video_path = None"
      "\<forall>p \<in> set frame_paths. path_exists e (clock st + 250 * k) p" "\<forall>j < k. ?miss j"
    then show "r = Inr frame_paths \<and> clock st' = clock st + 250 * k"
      using found[of k] by simp
  qed
  have 6: "\<forall>err. run_strategies e video_path = Some err \<longrightarrow> r = Inl err \<and> clock st' = clock st"
    using raised by simp
  show ?thesis using 1 2 3 4 5 6 by (intro conjI)
qed

lemma ex_intact: "intact (ex_scene @ ex_fps @ ex_spike)"
  by (simp add: intact_def ex_scene_def ex_fps_def ex_spike_def)

lemma ex_sorted:
  "sort_key fname ex_scene = rev ex_scene" "sort_key fname ex_fps = ex_fps"
  "sort_key fname ex_spike = ex_spike"
  by (simp_all add: ex_scene_def ex_fps_def ex_spike_def less_eq_char_def less_char_def)

lemma ex_candidates:
  "candidate_hashes ex_scene ex_fps ex_spike 60 =
      [''e4d909c290d0fb1ca068ffaddf22cbd0'', ''9e107d9d372bb6826bd81d3542a419d6'',
       ''e4d909c290d0fb1ca068ffaddf22cbd0'', ''d41d8cd98f00b204e9800998ecf8427e'',
       ''d41d8cd98f00b204e9800998ecf8427e'', ''0cc175b9c0f1b6a831c399e269772661'']"
  unfolding candidate_hashes_def visited_def capped_def ex_sorted
  by (simp add: ex_scene_def ex_fps_def ex_spike_def List.map_filter_simps default_cap_def)

lemma ex_dedup: "deduplicate ''/tmp/data/r1/videos/j1/final'' ex_scene ex_fps ex_spike 60 = ex_frames"
proof -
  have i: "intact ex_scene" "intact ex_fps" "intact ex_spike"
    using ex_intact by (auto simp: intact_def)
  show ?thesis
    unfolding deduplicate_first_wins[OF i] ex_candidates
    by (simp add: dest_def path_join_def ex_frames_def)
qed

lemma stride_at_fps_30: "py_int (fl (30 * fl (1 / 10))) = 3"
  by code_simp

lemma ex_detect: "detect_luma_spike_timestamps ex_capture = Inr []"
  by (simp add: detect_luma_spike_timestamps_def ex_capture_def stride_at_fps_30 Let_def
      spike_loop.simps)

lemma ex_strategies: "run_strategies (ex_env\<lparr>path_exists := pe\<rparr>) ex_video = None"
  by (simp add: run_strategies_def ex_env_def ex_video_def ex_detect)

lemma ex_joins:
  "path_join ex_work_dir ''scene'' = ''/tmp/data/r1/videos/j1/scene''"
  "path_join ex_work_dir ''fps'' = ''/tmp/data/r1/videos/j1/fps''"
  "path_join ex_work_dir ''spike'' = ''/tmp/data/r1/videos/j1/spike''"
  "path_join ex_work_dir ''final'' = ''/tmp/data/r1/videos/j1/final''"
  "path_join ex_work_dir ''done.json'' = ''/tmp/data/r1/videos/j1/done.json''"
  by (simp_all add: path_join_def ex_work_dir_def)

lemma ex_listdir:
  "listdir (ex_env\<lparr>path_exists := pe\<rparr>) ''/tmp/data/r1/videos/j1/scene'' = ex_scene"
  "listdir (ex_env\<lparr>path_exists := pe\<rparr>) ''/tmp/data/r1/videos/j1/fps'' = ex_fps"
  "listdir (ex_env\<lparr>path_exists := pe\<rparr>) ''/tmp/data/r1/videos/j1/spike'' = ex_spike"
  by (simp_all add: ex_env_def)

lemma ex_env_upd: "ex_env\<lparr>path_exists := (\<lambda>t p. True)\<rparr> = ex_env"
  by (simp add: ex_env_def)

lemma ex_claimed:
  "deduplicate (path_join ex_work_dir ''final'')
     (listdir (ex_env\<lparr>path_exists := pe\<rparr>) (path_join ex_work_dir ''scene''))
     (listdir (ex_env\<lparr>path_exists := pe\<rparr>) (path_join ex_work_dir ''fps''))
     (listdir (ex_env\<lparr>path_exists := pe\<rparr>) (path_join ex_work_dir ''spike'')) 60 = ex_frames"
  unfolding ex_joins ex_listdir by (rule ex_dedup)

text \<open>
  The example video on a disk that has the frames at once, on one where they show up
  after 500 ms (at the second retry), and on one that never has them.
\<close>

theorem readiness_marker_after_verification_witness:
  "fst (extract_video_frames ex_env ex_video ex_work_dir 60 st0) = Inr ex_frames
   \<and> map_of (done_files (snd (extract_video_frames ex_env ex_video ex_work_dir 60 st0)))
        ''/tmp/data/r1/videos/j1/done.json''
       = Some \<lparr>total_frames = 4, done_output_dir = ''/tmp/data/r1/videos/j1'',
               done_final_dir = ''/tmp/data/r1/videos/j1/final''\<rparr>
   \<and> clock (snd (extract_video_frames ex_env ex_video ex_work_dir 60 st0)) = 0
   \<and> fst (extract_video_frames ex_env_late ex_video ex_work_dir 60 st0) = Inr ex_frames
   \<and> map_of (done_files (snd (extract_video_frames ex_env_late ex_video ex_work_dir 60 st0)))
        ''/tmp/data/r1/videos/j1/done.json''
       = Some \<lparr>total_frames = 4, done_output_dir = ''/tmp/data/r1/videos/j1'',
               done_final_dir = ''/tmp/data/r1/videos/j1/final''\<rparr>
   \<and> clock (snd (extract_video_frames ex_env_late ex_video ex_work_dir 60 st0)) = 500
   \<and> fst (extract_video_frames ex_env_missing ex_video ex_work_dir 60 st0)
       = Inl (FileNotFoundError ''Some final frames were not written to disk.'')
   \<and> done_files (snd (extract_video_frames ex_env_missing ex_video ex_work_dir 60 st0)) = []
   \<and> clock (snd (extract_video_frames ex_env_missing ex_video ex_work_dir 60 st0)) = 2500"
proof -
  let ?x = "extract_video_frames ex_env ex_video ex_work_dir 60 st0"
  let ?y = "extract_video_frames ex_env_missing ex_video ex_work_dir 60 st0"
  let ?z = "extract_video_frames ex_env_late ex_video ex_work_dir 60 st0"
  let ?marker = "Some \<lparr>total_frames = 4, done_output_dir = ''/tmp/data/r1/videos/j1'',
               done_final_dir = ''/tmp/data/r1/videos/j1/final''\<rparr>"
  have fp: "ex_frames = deduplicate (path_join ex_work_dir ''final'')
            (listdir ex_env (path_join ex_work_dir ''scene''))
            (listdir ex_env (path_join ex_work_dir ''fps''))
            (listdir ex_env (path_join ex_work_dir ''spike'')) 60"
    using ex_claimed[of "\<lambda>t p. True"] unfolding ex_env_upd by simp
  have fp2: "ex_frames = deduplicate (path_join ex_work_dir ''final'')
            (listdir ex_env_missing (path_join ex_work_dir ''scene''))
            (listdir ex_env_missing (path_join ex_work_dir ''fps''))
            (listdir ex_env_missing (path_join ex_work_dir ''spike'')) 60"
    unfolding ex_env_missing_def using ex_claimed[of "\<lambda>t p. False"] by simp
  have fp3: "ex_frames = deduplicate (path_join ex_work_dir ''final'')
            (listdir ex_env_late (path_join ex_work_dir ''scene''))
            (listdir ex_env_late (path_join ex_work_dir ''fps''))
            (listdir ex_env_late (path_join ex_work_dir ''spike'')) 60"
    unfolding ex_env_late_def using ex_claimed[of "\<lambda>t p. 500 \<le> t"] by simp
  have l: "length ex_frames = 4" by (simp add: ex_frames_def)
  have a: "?x = (fst ?x, snd ?x)" and b: "?y = (fst ?y, snd ?y)" and c: "?z = (fst ?z, snd ?z)"
    by simp_all
  note A = readiness_marker_after_verification[OF a fp]
  note B = readiness_marker_after_verification[OF b fp2]
  note C = readiness_marker_after_verification[OF c fp3]
  have sx: "run_strategies ex_env ex_video = None"
    using ex_strategies[of "\<lambda>t p. True"] unfolding ex_env_upd .
  have "0 \<le> (10::nat)" by simp
  from A[THEN conjunct2, THEN conjunct2, THEN conjunct2, THEN conjunct1, rule_format, OF this]
  have x: "fst ?x = Inr ex_frames" "clock (snd ?x) = 0"
    using sx by (simp_all add: ex_env_def st0_def)
  from A[THEN conjunct1, rule_format, OF x(1)]
  have xm: "map_of (done_files (snd ?x)) ''/tmp/data/r1/videos/j1/done.json'' = ?marker"
    by (simp add: ex_joins l) (simp add: ex_work_dir_def)
  have sz: "run_strategies ex_env_late ex_video = None"
    unfolding ex_env_late_def by (rule ex_strategies)
  have late: "\<forall>p \<in> set ex_frames. path_exists ex_env_late (clock st0 + 250 * 2) p"
    by (simp add: ex_env_late_def st0_def)
  have early: "\<forall>j < 2. \<exists>p \<in> set ex_frames. \<not> path_exists ex_env_late (clock st0 + 250 * j) p"
    by (auto simp: ex_env_late_def st0_def ex_frames_def)
  have "2 \<le> (10::nat)" by simp
  from C[THEN conjunct2, THEN conjunct2, THEN conjunct2, THEN conjunct1, rule_format, OF this]
    sz late early
  have z: "fst ?z = Inr ex_frames" "clock (snd ?z) = 500"
    by (simp_all add: st0_def)
  from C[THEN conjunct1, rule_format, OF z(1)]
  have zm: "map_of (done_files (snd ?z)) ''/tmp/data/r1/videos/j1/done.json'' = ?marker"
    by (simp add: ex_joins l) (simp add: ex_work_dir_def)
  have sy: "run_strategies ex_env_missing ex_video = None"
    unfolding ex_env_missing_def by (rule ex_strategies)
  have miss: "\<forall>k \<le> 10. \<exists>p \<in> set ex_frames. \<not> path_exists ex_env_missing (clock st0 + 250 * k) p"
    by (auto simp: ex_env_missing_def ex_frames_def)
  from B[THEN conjunct2, THEN conjunct2, THEN conjunct1] sy miss
  have y: "fst ?y = Inl (FileNotFoundError ''Some final frames were not written to disk.'')"
    "clock (snd ?y) = 2500"
    by (simp_all add: st0_def)
  from B[THEN conjunct2, THEN conjunct1, rule_format, OF y(1)]
  have yd: "done_files (snd ?y) = []" by (simp add: st0_def)
  show ?thesis using x xm z zm y yd by (intro conjI)
qed

section \<open>The spike detector (C6)\<close>

lemma spike_loop_step_0:
  "spike_loop fps 0 d w rest i prev lst ts = Inl (ZeroDivisionError ''integer modulo by zero'')"
  by (subst spike_loop.simps) simp

lemma detect_raises_at_stride_0:
  assumes "isOpened cap" "CAP_PROP_FPS cap \<noteq> 0"
    and "py_int (fl (CAP_PROP_FPS cap * fl (1 / 10))) = 0"
  shows "detect_luma_spike_timestamps cap = Inl (ZeroDivisionError ''integer modulo by zero'')"
  using assms by (simp add: detect_luma_spike_timestamps_def Let_def spike_loop_step_0)

lemma stride_at_fps_5: "py_int (fl (5 * fl (1 / 10))) = 0"
  by code_simp

lemma spike_loop_returns:
  "step \<noteq> 0 \<Longrightarrow> \<exists>out. spike_loop fps step d w rest i prev lst ts = Inr out"
proof (induction fps step d w rest i prev lst ts rule: spike_loop.induct)
  case (1 fps step d w rest i prev lst ts)
  show ?case
    using 1
    by (subst spike_loop.simps) (auto simp: Let_def split: list.splits option.splits)
qed

text \<open>
  Claim C6 at a video that reports 5 frames per second: the stride \<open>int(fps * 0.1)\<close> is 0
  and the first \<open>frame_idx % step\<close> raises.  (\<open>detect_raises_at_stride_0\<close>: so it is for
  every opened video whose fps is not 0 and whose stride is 0; \<open>spike_loop_returns\<close>:
  with a stride other than 0 the loop returns.)
\<close>

theorem spike_detector_raises_at_fps_5:
  "detect_luma_spike_timestamps ex_capture_slow = Inl (ZeroDivisionError ''integer modulo by zero'')"
  by (rule detect_raises_at_stride_0)
     (simp_all add: ex_capture_slow_def ex_capture_def stride_at_fps_5)

section \<open>Degraded scanning (C9)\<close>

lemma missing_at_Nil2: "missing_at e t ps = [] \<longleftrightarrow> (\<forall>p \<in> set ps. path_exists e t p)"
  by (auto simp: missing_at_def filter_empty_conv)

lemma await_frames_found:
  "k < n \<Longrightarrow> missing_at e (t + 500 * k) ps = [] \<Longrightarrow> fst (await_frames e ps n t m) = None"
proof (induction n arbitrary: t m k)
  case 0
  then show ?case by simp
next
  case (Suc n)
  show ?case
  proof (cases "missing_at e t ps = []")
    case True
    then show ?thesis by simp
  next
    case False
    then have "k \<noteq> 0" using Suc.prems(2) by (cases k) auto
    then obtain k' where k: "k = Suc k'" by (cases k) auto
    then have "k' < n" "missing_at e (t + 500 + 500 * k') ps = []"
      using Suc.prems by (simp_all add: add.assoc)
    from Suc.IH[OF this] False show ?thesis by simp
  qed
qed

lemma await_frames_None_clock:
  "await_frames e ps n t m = (None, t') \<Longrightarrow> t \<le> t' \<and> t' \<le> t + 500 * n"
proof (induction n arbitrary: t m)
  case 0
  then show ?case by simp
next
  case (Suc n)
  show ?case
  proof (cases "missing_at e t ps = []")
    case True
    then show ?thesis using Suc.prems by simp
  next
    case False
    then have "await_frames e ps n (t + 500) (missing_at e t ps) = (None, t')"
      using Suc.prems by simp
    from Suc.IH[OF this] show ?thesis by simp
  qed
qed

text \<open>
  Claim C9: when the paths are on disk at one of the five checks and the body of the
  \<open>try\<close> (classification, then reshaping) raises, \<open>scan_frames\<close> returns one result per
  input path, in order, each with \<open>is_nsfw = False\<close>, \<open>nsfw_score = 0\<close> and the
  exception's message as \<open>error\<close>.
\<close>

theorem scan_frames_degrades:
  assumes "frame_paths \<noteq> []"
    and "k < 5" and "\<forall>p \<in> set frame_paths. path_exists e (clock st + 500 * k) p"
    and "scan_stage e mtype frame_paths = Inl err"
  shows "fst (scan_frames e mtype frame_paths st) = Inr (map (degraded e err) frame_paths)
       \<and> length (map (degraded e err) frame_paths) = length frame_paths
       \<and> (\<forall>r \<in> set (map (degraded e err) frame_paths).
            \<not> is_nsfw r \<and> nsfw_score r = 0 \<and> error r = Some (str err))
       \<and> (\<forall>i < length frame_paths.
            filename (map (degraded e err) frame_paths ! i) = basename (frame_paths ! i))"
proof -
  have "fst (await_frames e frame_paths 5 (clock st) []) = None"
    using await_frames_found[OF assms(2), of e "clock st" frame_paths] assms(3)
    by (simp add: missing_at_Nil2)
  then obtain t where "await_frames e frame_paths 5 (clock st) [] = (None, t)"
    by (cases "await_frames e frame_paths 5 (clock st) []") auto
  then have "fst (scan_frames e mtype frame_paths st) = Inr (map (degraded e err) frame_paths)"
    using assms(1,4) by (simp add: scan_frames_def)
  then show ?thesis by (simp add: degraded_def)
qed

lemma ex_scan_stage_tiny:
  "scan_stage ex_env ''images'' [ex_image] = Inl (OtherError ''cannot identify image file'')"
  by (simp add: scan_stage_def scan_images_for_nsfw_def ex_image_def ex_env_def
      scan_batches.simps)

text \<open>The file of 10 bytes that \<open>Image.open\<close> cannot identify.\<close>

theorem scan_frames_degrades_witness:
  "[ex_image] \<noteq> [] \<and> (0::nat) < 5 \<and> path_exists ex_env (clock st0 + 500 * 0) ex_image
   \<and> scan_stage ex_env ''images'' [ex_image] = Inl (OtherError ''cannot identify image file'')
   \<and> fst (scan_frames ex_env ''images'' [ex_image] st0) =
       Inr [\<lparr>filename = ''j1.jpg'', relative_path = ''../tmp/data/r1/images/j1.jpg'',
             is_nsfw = False, nsfw_score = 0, full_probs = [],
             width = None, height = None, size_mb = None,
             error = Some ''cannot identify image file''\<rparr>]"
proof -
  have p: "\<forall>p \<in> set [ex_image]. path_exists ex_env (clock st0 + 500 * 0) p"
    by (simp add: ex_env_def)
  have d: "map (degraded ex_env (OtherError ''cannot identify image file'')) [ex_image] =
       [\<lparr>filename = ''j1.jpg'', relative_path = ''../tmp/data/r1/images/j1.jpg'',
             is_nsfw = False, nsfw_score = 0, full_probs = [],
             width = None, height = None, size_mb = None,
             error = Some ''cannot identify image file''\<rparr>]"
    by (simp add: degraded_def ex_image_def basename_def ex_env_def)
  have ne: "[ex_image] \<noteq> []" and k: "(0::nat) < 5" by simp_all
  show ?thesis
    using scan_frames_degrades[OF ne k p ex_scan_stage_tiny] p ex_scan_stage_tiny
    unfolding d by simp
qed

section \<open>The verdict of a video (C8)\<close>










lemma ex_env_sel:
  "fetch ex_env u = (if u = ''http://media.test/tiny.jpg'' then Some 10 else Some 2000000)"
  "urlparse_path ex_env u = drop 17 u"
  "uuid4 ex_env u = ''u1''"
  "ffmpeg_fps ex_env p = None"
  "path_exists ex_env t p = True"
  "getsize ex_env p = 2000000"
  "image_open ex_env p =
     (if p = ''/tmp/data/r1/images/j1.jpg'' then Some ''cannot identify image file'' else None)"
  "model_probs ex_env ps = Inr (map ex_probs ps)"
  "imread ex_env p = Some (360, 640)"
  "relpath ex_env p start =
     (if prefix (start @ ''/'') p then drop (length start + 1) p
      else if start = ''/data'' then ''..'' @ p else p)"
  "rmtree_ok ex_env p = True"
  "float_sum ex_env = foldl (\<lambda>acc x. fl (acc + x)) 0"
  by (simp_all add: ex_env_def)








section \<open>Rejected video jobs (C4)\<close>

lemma lower_ext:
  "lower ''.mp4'' = ''.mp4''" "lower ''.jpg'' = ''.jpg''"
  by (simp_all add: lower_def lower_char_def)

lemma ex_splitext:
  "splitext_ext ''/long.mp4'' = ''.mp4''"
  "splitext_ext ''/broken.mp4'' = ''.mp4''"
  "splitext_ext ''/fine.mp4'' = ''.mp4''"
  "splitext_ext ''/tiny.jpg'' = ''.jpg''"
  "splitext_ext ''/tmp/data/r1/videos/j3/u1.mp4'' = ''.mp4''"
  "splitext_ext ''/tmp/data/r1/videos/j2/u1.mp4'' = ''.mp4''"
  "splitext_ext ''/tmp/data/r1/videos/j1/u1.mp4'' = ''.mp4''"
  "splitext_ext ''/tmp/data/r1/images/j1.jpg'' = ''.jpg''"
  by (simp_all add: splitext_ext_def basename_def Let_def)

lemma ex_work_dirs:
  "path_join BASE_DIR ''r1'' = ''/tmp/data/r1''"
  "path_join ''/tmp/data/r1'' ''videos'' = ''/tmp/data/r1/videos''"
  "path_join ''/tmp/data/r1'' ''images'' = ''/tmp/data/r1/images''"
  "path_join ''/tmp/data/r1/videos'' ''j1'' = ''/tmp/data/r1/videos/j1''"
  "path_join ''/tmp/data/r1/videos'' ''j2'' = ''/tmp/data/r1/videos/j2''"
  "path_join ''/tmp/data/r1/videos'' ''j3'' = ''/tmp/data/r1/videos/j3''"
  by (simp_all add: path_join_def BASE_DIR_def)

lemma ex_download_videos:
  "download_file ex_env ''http://media.test/long.mp4'' ''/tmp/data/r1/videos/j3'' None MAX_VIDEO_SIZE_MB
     = Some ''/tmp/data/r1/videos/j3/u1.mp4''"
  "download_file ex_env ''http://media.test/broken.mp4'' ''/tmp/data/r1/videos/j2'' None MAX_VIDEO_SIZE_MB
     = Some ''/tmp/data/r1/videos/j2/u1.mp4''"
  "download_file ex_env ''http://media.test/fine.mp4'' ''/tmp/data/r1/videos/j1'' None MAX_VIDEO_SIZE_MB
     = Some ''/tmp/data/r1/videos/j1/u1.mp4''"
  by (simp_all add: download_file_def ex_env_sel ex_splitext lower_ext Let_def
      ALLOWED_VIDEO_EXTENSIONS_def ALLOWED_IMAGE_EXTENSIONS_def MAX_VIDEO_SIZE_MB_def path_join_def)

lemma ex_download_image:
  "download_file ex_env ''http://media.test/tiny.jpg'' ''/tmp/data/r1/images'' (Some ''j1'') MAX_IMAGE_SIZE_MB
     = Some ''/tmp/data/r1/images/j1.jpg''"
  by (simp add: download_file_def ex_env_sel ex_splitext lower_ext Let_def
      ALLOWED_VIDEO_EXTENSIONS_def ALLOWED_IMAGE_EXTENSIONS_def MAX_IMAGE_SIZE_MB_def path_join_def)

lemma dir_chain_length: "d \<in> set (dir_chain pre rest) \<Longrightarrow> length d \<le> length pre + length rest"
proof (induction rest arbitrary: pre)
  case Nil
  then show ?case by (simp split: if_splits)
next
  case (Cons c cs)
  have "d \<in> set (dir_chain (pre @ [c]) cs) \<Longrightarrow> length d \<le> length (pre @ [c]) + length cs"
    by (rule Cons.IH)
  then have "d \<in> set (dir_chain (pre @ [c]) cs) \<Longrightarrow> length d \<le> length pre + length (c # cs)"
    by simp
  then show ?case using Cons.prems by (auto split: if_splits)
qed

lemma path_join_longer:
  "sub \<noteq> [] \<Longrightarrow> hd sub \<noteq> CHR ''/'' \<Longrightarrow> length (path_join work_dir sub) > length work_dir"
  by (simp add: path_join_def)

lemma makedirs_no_child:
  assumes "sub \<noteq> []" "hd sub \<noteq> CHR ''/''"
  shows "path_join work_dir sub \<in> set (dirs (makedirs work_dir st)) \<longleftrightarrow>
         path_join work_dir sub \<in> set (dirs st)"
proof -
  have "path_join work_dir sub \<notin> set (dir_chain [] work_dir)"
    using dir_chain_length[of "path_join work_dir sub" "[]" work_dir] path_join_longer[OF assms, of work_dir]
    by auto
  then show ?thesis by (auto simp: makedirs_def)
qed

lemma preprocess_video_job_prefix:
  "preprocess_video_job e round_id job acc st = (Inr out, st') \<Longrightarrow> prefix acc out"
  by (auto simp: preprocess_video_job_def Let_def butlast_append
      split: option.splits if_splits prod.splits sum.splits)

lemma preprocess_videos_prefix:
  "preprocess_videos e round_id js acc st = (Inr out, st') \<Longrightarrow> prefix acc out"
proof (induction js arbitrary: acc st)
  case Nil
  then show ?case by simp
next
  case (Cons j js)
  from Cons.prems obtain acc1 st1 where
    s: "preprocess_video_job e round_id j acc st = (Inr acc1, st1)"
    and r: "preprocess_videos e round_id js acc1 st1 = (Inr out, st')"
    by (auto split: prod.splits sum.splits)
  from preprocess_video_job_prefix[OF s] Cons.IH[OF r] show ?case
    by (rule prefix_order.trans)
qed

text \<open>
  Claim C4, as the code has it: a video job that passed the download gate and whose probe
  reports a non-positive fps, a non-positive frame count or a duration (the quotient of
  frame count and fps, a double) above 300 seconds is left before extraction: only its working directory is made (no staging directory, no
  marker); the descriptor appended for it, with no frames and no metadata, stays in the
  output of the preprocessor; and the aggregator passes over such a descriptor.
\<close>

theorem rejected_video_job_stays_without_frames:
  assumes "work_dir = path_join (path_join (path_join BASE_DIR round_id) ''videos'') (job_id job)"
    and "download_file e (url job) work_dir None MAX_VIDEO_SIZE_MB = Some video_path"
    and "lower (splitext_ext video_path) \<in> ALLOWED_VIDEO_EXTENSIONS"
    and "isOpened (VideoCapture e video_path)"
    and "CAP_PROP_FPS (VideoCapture e video_path) \<le> 0
       \<or> CAP_PROP_FRAME_COUNT (VideoCapture e video_path) \<le> 0
       \<or> fl (CAP_PROP_FRAME_COUNT (VideoCapture e video_path) / CAP_PROP_FPS (VideoCapture e video_path))
           > 300"
  shows "preprocess_video_job e round_id job preprocessed_jobs st =
           (Inr (preprocessed_jobs @ [VideoJob (job_id job) [] None]), makedirs work_dir st)
       \<and> (\<forall>sub \<in> {''scene'', ''fps'', ''spike'', ''final''}.
            path_join work_dir sub \<in> set (dirs (makedirs work_dir st)) \<longleftrightarrow>
            path_join work_dir sub \<in> set (dirs st))
       \<and> done_files (makedirs work_dir st) = done_files st
       \<and> (preprocess_videos e round_id (job # rest) preprocessed_jobs st = (Inr out, st') \<longrightarrow>
            VideoJob (job_id job) [] None \<in> set out)
       \<and> analyze_videos e (VideoJob (job_id job) [] None # others) video_results st2 =
           analyze_videos e others video_results st2"
proof -
  have 1: "preprocess_video_job e round_id job preprocessed_jobs st =
           (Inr (preprocessed_jobs @ [VideoJob (job_id job) [] None]), makedirs work_dir st)"
    using assms by (auto simp: preprocess_video_job_def Let_def MAX_VIDEO_DURATION_def)
  have 2: "\<forall>sub \<in> {''scene'', ''fps'', ''spike'', ''final''}.
            path_join work_dir sub \<in> set (dirs (makedirs work_dir st)) \<longleftrightarrow>
            path_join work_dir sub \<in> set (dirs st)"
    by (auto simp: makedirs_no_child)
  have 3: "VideoJob (job_id job) [] None \<in> set out"
    if "preprocess_videos e round_id (job # rest) preprocessed_jobs st = (Inr out, st')"
  proof -
    from that 1 have "preprocess_videos e round_id rest
        (preprocessed_jobs @ [VideoJob (job_id job) [] None]) (makedirs work_dir st) = (Inr out, st')"
      by simp
    from preprocess_videos_prefix[OF this] show ?thesis
      by (auto simp: prefix_def)
  qed
  show ?thesis using 1 2 3 by (simp add: makedirs_def)
qed

lemma ex_long_capture:
  "VideoCapture ex_env ''/tmp/data/r1/videos/j3/u1.mp4'' = ex_capture\<lparr>CAP_PROP_FRAME_COUNT := 9030\<rparr>"
  by (simp add: ex_env_def)

lemma ex_durations: "fl 301 = 301" "fl 10 = 10"
  by code_simp+

text \<open>
  The ceiling is compared with the double: 8991 frames at the double nearest to 29.97 frames
  per second last 300.0 seconds, although the exact quotient is above 300.
\<close>

lemma duration_at_the_ceiling:
  "fl (8991 / fl (2997 / 100)) = 300" "8991 / fl (2997 / 100) > 300"
  by code_simp+

text \<open>The video of 301 seconds.\<close>

theorem rejected_video_job_stays_without_frames_witness:
  "download_file ex_env (url ex_job_long) ''/tmp/data/r1/videos/j3'' None MAX_VIDEO_SIZE_MB
      = Some ''/tmp/data/r1/videos/j3/u1.mp4''
   \<and> lower (splitext_ext ''/tmp/data/r1/videos/j3/u1.mp4'') \<in> ALLOWED_VIDEO_EXTENSIONS
   \<and> isOpened (VideoCapture ex_env ''/tmp/data/r1/videos/j3/u1.mp4'')
   \<and> fl (CAP_PROP_FRAME_COUNT (VideoCapture ex_env ''/tmp/data/r1/videos/j3/u1.mp4'')
        / CAP_PROP_FPS (VideoCapture ex_env ''/tmp/data/r1/videos/j3/u1.mp4'')) = 301
   \<and> preprocess_video_job ex_env ''r1'' ex_job_long [] st0 =
        (Inr [VideoJob ''j3'' [] None], makedirs ''/tmp/data/r1/videos/j3'' st0)
   \<and> ''/tmp/data/r1/videos/j3/scene'' \<notin> set (dirs (makedirs ''/tmp/data/r1/videos/j3'' st0))
   \<and> ''/tmp/data/r1/videos/j3/final'' \<notin> set (dirs (makedirs ''/tmp/data/r1/videos/j3'' st0))"
proof -
  have w: "''/tmp/data/r1/videos/j3'' =
      path_join (path_join (path_join BASE_DIR ''r1'') ''videos'') (job_id ex_job_long)"
    by (simp add: ex_job_long_def ex_work_dirs)
  have d: "download_file ex_env (url ex_job_long) ''/tmp/data/r1/videos/j3'' None MAX_VIDEO_SIZE_MB
      = Some ''/tmp/data/r1/videos/j3/u1.mp4''"
    by (simp add: ex_job_long_def ex_download_videos)
  have x: "lower (splitext_ext ''/tmp/data/r1/videos/j3/u1.mp4'') \<in> ALLOWED_VIDEO_EXTENSIONS"
    by (simp add: ex_splitext lower_ext ALLOWED_VIDEO_EXTENSIONS_def)
  have o: "isOpened (VideoCapture ex_env ''/tmp/data/r1/videos/j3/u1.mp4'')"
    by (simp add: ex_long_capture ex_capture_def)
  have q: "fl (CAP_PROP_FRAME_COUNT (VideoCapture ex_env ''/tmp/data/r1/videos/j3/u1.mp4'')
        / CAP_PROP_FPS (VideoCapture ex_env ''/tmp/data/r1/videos/j3/u1.mp4'')) = 301"
    by (simp add: ex_long_capture ex_capture_def ex_durations)
  then have r: "CAP_PROP_FPS (VideoCapture ex_env ''/tmp/data/r1/videos/j3/u1.mp4'') \<le> 0
       \<or> CAP_PROP_FRAME_COUNT (VideoCapture ex_env ''/tmp/data/r1/videos/j3/u1.mp4'') \<le> 0
       \<or> fl (CAP_PROP_FRAME_COUNT (VideoCapture ex_env ''/tmp/data/r1/videos/j3/u1.mp4'')
            / CAP_PROP_FPS (VideoCapture ex_env ''/tmp/data/r1/videos/j3/u1.mp4'')) > 300"
    by simp
  note T = rejected_video_job_stays_without_frames[OF w d x o r, of "[]" st0]
  have s: "path_join ''/tmp/data/r1/videos/j3'' ''scene'' = ''/tmp/data/r1/videos/j3/scene''"
    "path_join ''/tmp/data/r1/videos/j3'' ''final'' = ''/tmp/data/r1/videos/j3/final''"
    by (simp_all add: path_join_def)
  have "''/tmp/data/r1/videos/j3/scene'' \<notin> set (dirs (makedirs ''/tmp/data/r1/videos/j3'' st0))"
    "''/tmp/data/r1/videos/j3/final'' \<notin> set (dirs (makedirs ''/tmp/data/r1/videos/j3'' st0))"
    using T s by (simp_all add: st0_def)
  then show ?thesis using T d x o q by (simp add: ex_job_long_def)
qed

text \<open>
  Claim C4 as stated fails: the job of the video of 301 seconds is in the output of
  \<open>preprocess_media\<close>.
\<close>

theorem rejected_video_job_absent_counterexample:
  "fl (CAP_PROP_FRAME_COUNT (VideoCapture ex_env ''/tmp/data/r1/videos/j3/u1.mp4'')
        / CAP_PROP_FPS (VideoCapture ex_env ''/tmp/data/r1/videos/j3/u1.mp4'')) = 301
   \<and> fst (preprocess_media ex_env ''videos'' [ex_job_long] ''r1'' st0) = Inr [VideoJob ''j3'' [] None]"
proof -
  have v: "validate_input \<lparr>media_type = ''videos'', jobs = [ex_job_long]\<rparr> = Inr ()"
    by (simp add: validate_input_def)
  have "preprocess_video_job ex_env ''r1'' ex_job_long [] st0 =
        (Inr [VideoJob ''j3'' [] None], makedirs ''/tmp/data/r1/videos/j3'' st0)"
    by (simp add: preprocess_video_job_def ex_job_long_def ex_work_dirs ex_download_videos
        ex_splitext lower_ext ALLOWED_VIDEO_EXTENSIONS_def Let_def ex_long_capture ex_capture_def
        MAX_VIDEO_DURATION_def ex_durations)
  then show ?thesis
    by (simp add: preprocess_media_def v ex_long_capture ex_capture_def ex_durations)
qed

section \<open>A failing extraction (C3)\<close>

lemma preprocess_videos_append:
  "preprocess_videos e round_id (xs @ ys) acc st =
     (case preprocess_videos e round_id xs acc st of
        (Inl err, st1) \<Rightarrow> (Inl err, st1)
      | (Inr acc1, st1) \<Rightarrow> preprocess_videos e round_id ys acc1 st1)"
proof (induction xs arbitrary: acc st)
  case Nil
  show ?case by simp
next
  case (Cons x xs)
  show ?case
    by (cases "preprocess_video_job e round_id x acc st")
       (auto simp: Cons.IH split: sum.splits)
qed

lemma preprocess_video_job_raises:
  assumes "preprocess_video_job e round_id job acc st = (Inl err, st2)"
  shows "\<exists>video_path work_dir st1.
           extract_video_frames e video_path work_dir 60 st1 = (Inl err, st2)
         \<or> (\<exists>fs st3. extract_video_frames e video_path work_dir 60 st1 = (Inr fs, st3)
               \<and> wait_for_done (path_join work_dir ''done.json'') st3 = (Inl err, st2))"
  using assms
  by (auto simp: preprocess_video_job_def Let_def
      split: option.splits if_splits prod.splits sum.splits) blast+

text \<open>
  Claim C3, as the code has it: when the jobs before it were preprocessed and the
  preprocessing of one job of a video request raises (by \<open>preprocess_video_job_raises\<close>
  this is an exception of the extraction or of the wait for its marker),
  \<open>preprocess_media\<close> raises it again, the jobs after it are not looked at,
  \<open>analyze_media\<close> raises it, and the handler answers with status error and the
  exception's message, without results.
\<close>

theorem extraction_error_fails_request:
  assumes "media_type req = ''videos''" and "validate_input req = Inr ()"
    and "jobs req = before @ job # after"
    and "preprocess_videos e round_id before [] st = (Inr acc, st1)"
    and "preprocess_video_job e round_id job acc st1 = (Inl err, st2)"
  shows "preprocess_media e (media_type req) (jobs req) round_id st = (Inl err, st2)
       \<and> analyze_media e round_id req st = (Inl err, st2)
       \<and> handler e round_id req st = (Error (str err), st2)"
proof -
  have "preprocess_videos e round_id (jobs req) [] st = (Inl err, st2)"
    unfolding assms(3) preprocess_videos_append using assms(4,5) by simp
  moreover have "\<lparr>media_type = ''videos'', jobs = jobs req\<rparr> = req"
    using assms(1) by (cases req) auto
  then have "validate_input \<lparr>media_type = ''videos'', jobs = jobs req\<rparr> = Inr ()"
    using assms(2) by (simp only:)
  ultimately have p: "preprocess_media e (media_type req) (jobs req) round_id st = (Inl err, st2)"
    using assms(1) by (simp add: preprocess_media_def)
  then have a: "analyze_media e round_id req st = (Inl err, st2)"
    using assms(2) by (simp add: analyze_media_def)
  then show ?thesis using p by (simp add: handler_def)
qed

lemma ex_broken_step:
  "preprocess_video_job ex_env ''r1'' ex_job_broken [] st0 =
     (Inl (FfmpegError ''ffmpeg error (see stderr output for detail)''),
      makedirs ''/tmp/data/r1/videos/j2/final'' (makedirs ''/tmp/data/r1/videos/j2/spike''
        (makedirs ''/tmp/data/r1/videos/j2/fps'' (makedirs ''/tmp/data/r1/videos/j2/scene''
          (makedirs ''/tmp/data/r1/videos/j2'' (makedirs ''/tmp/data/r1/videos/j2'' st0))))))"
proof -
  have c: "VideoCapture ex_env ''/tmp/data/r1/videos/j2/u1.mp4'' = ex_capture"
    by (simp add: ex_env_def)
  have r: "run_strategies ex_env ''/tmp/data/r1/videos/j2/u1.mp4'' =
      Some (FfmpegError ''ffmpeg error (see stderr output for detail)'')"
    by (simp add: run_strategies_def ex_env_def)
  have x: "extract_video_frames ex_env ''/tmp/data/r1/videos/j2/u1.mp4'' ''/tmp/data/r1/videos/j2'' 60 st =
     (Inl (FfmpegError ''ffmpeg error (see stderr output for detail)''),
      makedirs ''/tmp/data/r1/videos/j2/final'' (makedirs ''/tmp/data/r1/videos/j2/spike''
        (makedirs ''/tmp/data/r1/videos/j2/fps'' (makedirs ''/tmp/data/r1/videos/j2/scene''
          (makedirs ''/tmp/data/r1/videos/j2'' st)))))" for st
    by (simp add: extract_video_frames_def r Let_def) (simp add: path_join_def)
  show ?thesis
    by (simp add: preprocess_video_job_def ex_job_broken_def ex_work_dirs ex_download_videos
        ex_splitext lower_ext ALLOWED_VIDEO_EXTENSIONS_def Let_def c x)
       (simp add: ex_capture_def MAX_VIDEO_DURATION_def ex_durations)
qed

lemma ex_videos_valid: "validate_input ex_videos_request = Inr ()"
  by (simp add: validate_input_def ex_videos_request_def)

text \<open>A request of two jobs whose first video makes the scene sampler fail.\<close>

theorem extraction_error_fails_request_witness:
  "media_type ex_videos_request = ''videos'' \<and> validate_input ex_videos_request = Inr ()
   \<and> jobs ex_videos_request = [] @ ex_job_broken # [ex_job_fine]
   \<and> preprocess_videos ex_env ''r1'' [] [] st0 = (Inr [], st0)
   \<and> fst (preprocess_video_job ex_env ''r1'' ex_job_broken [] st0) =
        Inl (FfmpegError ''ffmpeg error (see stderr output for detail)'')
   \<and> fst (handler ex_env ''r1'' ex_videos_request st0) =
        Error ''ffmpeg error (see stderr output for detail)''"
proof -
  have m: "media_type ex_videos_request = ''videos''"
    and j: "jobs ex_videos_request = [] @ ex_job_broken # [ex_job_fine]"
    by (simp_all add: ex_videos_request_def)
  have p: "preprocess_videos ex_env ''r1'' [] [] st0 = (Inr [], st0)" by simp
  note T = extraction_error_fails_request[OF m ex_videos_valid j p ex_broken_step]
  show ?thesis using T m ex_videos_valid j p ex_broken_step by simp
qed

text \<open>
  Claim C3 as stated fails: the request with a failing job and a sibling job is answered
  with an error, not with results for the sibling.
\<close>

theorem sibling_jobs_survive_counterexample:
  "jobs ex_videos_request = [ex_job_broken, ex_job_fine]
   \<and> fst (handler ex_env ''r1'' ex_videos_request st0) =
        Error ''ffmpeg error (see stderr output for detail)''"
proof -
  have "preprocess_videos ex_env ''r1'' [ex_job_broken, ex_job_fine] [] st0 =
     (Inl (FfmpegError ''ffmpeg error (see stderr output for detail)''),
      snd (preprocess_video_job ex_env ''r1'' ex_job_broken [] st0))"
    by (simp add: ex_broken_step)
  then have "fst (analyze_media ex_env ''r1'' ex_videos_request st0) =
     Inl (FfmpegError ''ffmpeg error (see stderr output for detail)'')"
    using ex_videos_valid
    by (simp add: analyze_media_def preprocess_media_def ex_videos_request_def)
  then show ?thesis
    by (cases "analyze_media ex_env ''r1'' ex_videos_request st0")
       (auto simp: handler_def ex_videos_request_def)
qed

end
